theory Spec2Isabelle
  imports Complex_Main "HOL-Library.AList"
begin

section \<open>Shared data model (types.ts)\<close>

text \<open>
  JavaScript numbers are modelled as ideal reals (\<open>real\<close>), turn counters and
  timestamps as integers; where the code itself can produce a value that is no finite
  number (the binding threshold, the weights of a tone distribution) the type of the
  result has a value for it. Strings are \<open>string\<close>; content is taken to be ASCII text.
  A JavaScript \<open>Map\<close> is an association list kept in insertion order: \<open>Map.set\<close> is
  \<open>AList.update\<close> (an existing key keeps its position, a new key goes last),
  \<open>Map.delete\<close> is \<open>AList.delete\<close>, \<open>Map.get\<close> is \<open>map_of\<close>.
  Fresh identifiers (\<open>uuidv4()\<close>) and the clock (\<open>Date.now()\<close>) are parameters
  of the operations that draw them. Plain objects used as tables (metadata bags, tone
  distributions, the adjacency of the graph library) are association lists in insertion
  order as well; their keys are taken not to be integer-like strings, which JavaScript
  would enumerate first.
\<close>

datatype error = MissingEndpoint | UnknownNode | UnknownCharacter

text \<open>Values of an open \<open>Record<string, any>\<close> metadata bag.\<close>

datatype meta =
    MStr string
  | MNum real
  | MBool bool
  | MNull
  | MList "meta list"
  | MObj "(string \<times> meta) list"

type_synonym metadata = "(string \<times> meta) list"

text \<open>JavaScript truthiness of a metadata value.\<close>

fun truthy :: "meta \<Rightarrow> bool" where
  "truthy (MStr s) = (s \<noteq> [])"
| "truthy (MNum x) = (x \<noteq> 0)"
| "truthy (MBool b) = b"
| "truthy MNull = False"
| "truthy (MList xs) = True"
| "truthy (MObj kvs) = True"

text \<open>Object spread \<open>{...a, ...b}\<close>: the keys of \<open>b\<close> are written over \<open>a\<close> in order.\<close>

definition spread :: "metadata \<Rightarrow> metadata \<Rightarrow> metadata" where
  "spread a b = foldl (\<lambda>acc kv. AList.update (fst kv) (snd kv) acc) a b"

text \<open>Spreading an optional bag: \<open>...undefined\<close> adds nothing.\<close>

definition spreadOpt :: "metadata \<Rightarrow> metadata option \<Rightarrow> metadata" where
  "spreadOpt a b = (case b of None \<Rightarrow> a | Some kvs \<Rightarrow> spread a kvs)"

datatype Source = user | system

record EmotionalState =
  dominant :: string
  secondary :: "string option"
  intensity :: real
  stability :: real

record BindingCriteria =
  contentSimilarity :: real
  emotionalAlignment :: real
  bc_keywords :: "string list option"

record FractureEvent =
  fr_id :: string
  fr_content :: string
  fr_timestamp :: int
  fr_source :: Source
  fr_metadata :: "metadata option"

record RecursionFold =
  fo_id :: string
  fo_content :: string
  fo_timestamp :: int
  characterId :: string
  fractureEventId :: "string option"
  emotionalState :: EmotionalState
  fo_metadata :: "metadata option"

text \<open>\<open>Premonition extends RecursionFold\<close>: the record extension adds the two fields.\<close>

record Premonition = RecursionFold +
  validityWindow :: int
  bindingCriteria :: BindingCriteria

datatype NodeType = TFracture | TFold | TMemory | TPremonition

datatype EdgeType = causality | emotional | divergence | contradiction

record MemoryNode =
  n_id :: string
  n_type :: NodeType
  n_content :: string
  n_timestamp :: int
  n_metadata :: "metadata option"

record MemoryEdge =
  e_source :: string
  e_target :: string
  e_type :: EdgeType
  e_weight :: real
  e_metadata :: "metadata option"

fun edgeTypeName :: "EdgeType \<Rightarrow> string" where
  "edgeTypeName causality = ''causality''"
| "edgeTypeName emotional = ''emotional''"
| "edgeTypeName divergence = ''divergence''"
| "edgeTypeName contradiction = ''contradiction''"

definition metaOfEmotionalState :: "EmotionalState \<Rightarrow> meta" where
  "metaOfEmotionalState es =
     MObj ([(''dominant'', MStr (dominant es))]
           @ (case secondary es of None \<Rightarrow> [] | Some s \<Rightarrow> [(''secondary'', MStr s)])
           @ [(''intensity'', MNum (intensity es)), (''stability'', MNum (stability es))])"

definition metaOfBindingCriteria :: "BindingCriteria \<Rightarrow> meta" where
  "metaOfBindingCriteria bc =
     MObj ([(''contentSimilarity'', MNum (contentSimilarity bc)),
            (''emotionalAlignment'', MNum (emotionalAlignment bc))]
           @ (case bc_keywords bc of None \<Rightarrow> [] | Some ks \<Rightarrow> [(''keywords'', MList (map MStr ks))]))"

section \<open>Text utilities\<close>

text \<open>\<open>String.prototype.toLowerCase\<close> on ASCII text.\<close>

definition toLowerChar :: "char \<Rightarrow> char" where
  "toLowerChar c =
     (case map_of (zip ''ABCDEFGHIJKLMNOPQRSTUVWXYZ'' ''abcdefghijklmnopqrstuvwxyz'') c of
        Some d \<Rightarrow> d
      | None \<Rightarrow> c)"

definition toLowerCase :: "string \<Rightarrow> string" where
  "toLowerCase s = map toLowerChar s"

text \<open>The ASCII characters matched by \<open>\s\<close>: tab, line feed, vertical tab, form feed,
  carriage return and space.\<close>

definition isSpace :: "char \<Rightarrow> bool" where
  "isSpace c = (c \<in> set [CHR 0x09, CHR 0x0A, CHR 0x0B, CHR 0x0C, CHR 0x0D, CHR '' ''])"

definition trim :: "string \<Rightarrow> string" where
  "trim s = rev (dropWhile isSpace (rev (dropWhile isSpace s)))"

text \<open>
  \<open>s.split(/\s+/)\<close>: every maximal run of white space is one separator; a separator at
  either end leaves an empty token there, and the empty string splits into one empty
  token. The first argument accumulates the current token, reversed.
\<close>

fun splitWs :: "string \<Rightarrow> string \<Rightarrow> string list" where
  "splitWs cur [] = [rev cur]"
| "splitWs cur (c # cs) =
     (if isSpace c then
        (case cs of
           [] \<Rightarrow> rev cur # splitWs [] cs
         | d # ds \<Rightarrow> if isSpace d then splitWs cur cs else rev cur # splitWs [] cs)
      else splitWs (c # cur) cs)"

definition split :: "string \<Rightarrow> string list" where
  "split s = splitWs [] s"

text \<open>\<open>String.prototype.includes\<close>: the needle occurs as a contiguous substring.\<close>

fun includesStr :: "string \<Rightarrow> string \<Rightarrow> bool" where
  "includesStr [] needle = (needle = [])"
| "includesStr (c # cs) needle = (take (length needle) (c # cs) = needle \<or> includesStr cs needle)"

text \<open>
  \<open>calculateContentSimilarity\<close> (the same body in PremonitionMatcher and in
  InteractionBindingLogic): the Jaccard index of the two word sets.
\<close>

definition calculateContentSimilarity :: "string \<Rightarrow> string \<Rightarrow> real" where
  "calculateContentSimilarity text1 text2 =
     (let normalized1 = trim (toLowerCase text1);
          normalized2 = trim (toLowerCase text2);
          words1 = split normalized1;
          words2 = split normalized2;
          wordSet1 = remdups words1;
          wordSet2 = remdups words2;
          matchCount = length (filter (\<lambda>word. word \<in> set wordSet2) wordSet1);
          unionSize = int (length wordSet1) + int (length wordSet2) - int matchCount
      in if unionSize > 0 then real matchCount / real_of_int unionSize else 0)"

section \<open>Memory Graph Store (memoryGraphStore.ts)\<close>

subsection \<open>The graphlib graph\<close>

text \<open>
  The store keeps a directed \<open>graphlib\<close> graph without multi-edges: node labels by
  node id, and one edge label per ordered pair of node ids, so that \<open>setEdge\<close> on an
  existing pair replaces its label.
\<close>

record Graph =
  g_nodes :: "(string \<times> MemoryNode) list"
  g_edges :: "((string \<times> string) \<times> MemoryEdge) list"

definition newGraph :: Graph where
  "newGraph = \<lparr>g_nodes = [], g_edges = []\<rparr>"

definition hasNode :: "Graph \<Rightarrow> string \<Rightarrow> bool" where
  "hasNode g v = (map_of (g_nodes g) v \<noteq> None)"

definition setNode :: "Graph \<Rightarrow> string \<Rightarrow> MemoryNode \<Rightarrow> Graph" where
  "setNode g v label = g\<lparr>g_nodes := AList.update v label (g_nodes g)\<rparr>"

definition setEdge :: "Graph \<Rightarrow> string \<Rightarrow> string \<Rightarrow> MemoryEdge \<Rightarrow> Graph" where
  "setEdge g v w label = g\<lparr>g_edges := AList.update (v, w) label (g_edges g)\<rparr>"

definition edge :: "Graph \<Rightarrow> string \<Rightarrow> string \<Rightarrow> MemoryEdge option" where
  "edge g v w = map_of (g_edges g) (v, w)"

text \<open>\<open>graph.successors(v)\<close>: \<open>undefined\<close> for an unknown node, else the targets of
  the edges leaving \<open>v\<close>, in the order the pairs were first inserted.\<close>

definition successors :: "Graph \<Rightarrow> string \<Rightarrow> string list option" where
  "successors g v =
     (if hasNode g v
      then Some (map (\<lambda>kv. snd (fst kv)) (filter (\<lambda>kv. fst (fst kv) = v) (g_edges g)))
      else None)"

subsection \<open>The store\<close>

record MemoryGraphStore =
  graph :: Graph
  nodes :: "(string \<times> MemoryNode) list"
  edges :: "(string \<times> MemoryEdge) list"

definition newStore :: MemoryGraphStore where
  "newStore = \<lparr>graph = newGraph, nodes = [], edges = []\<rparr>"

definition addNode :: "MemoryGraphStore \<Rightarrow> MemoryNode \<Rightarrow> MemoryGraphStore \<times> string" where
  "addNode st node =
     (st\<lparr>nodes := AList.update (n_id node) node (nodes st),
         graph := setNode (graph st) (n_id node) node\<rparr>,
      n_id node)"

definition addFracture :: "MemoryGraphStore \<Rightarrow> FractureEvent \<Rightarrow> MemoryGraphStore \<times> string" where
  "addFracture st fracture =
     addNode st \<lparr>n_id = fr_id fracture, n_type = TFracture, n_content = fr_content fracture,
                 n_timestamp = fr_timestamp fracture, n_metadata = fr_metadata fracture\<rparr>"

definition edgeId :: "MemoryEdge \<Rightarrow> string" where
  "edgeId e = e_source e @ ''-'' @ e_target e @ ''-'' @ edgeTypeName (e_type e)"

text \<open>
  \<open>addEdge\<close> returns the store as the call leaves it together with the outcome: the
  edge id, or the error raised when an endpoint is not a node of the graph.
\<close>

definition addEdge :: "MemoryGraphStore \<Rightarrow> MemoryEdge \<Rightarrow> MemoryGraphStore \<times> (error + string)" where
  "addEdge st e =
     (if \<not> hasNode (graph st) (e_source e) \<or> \<not> hasNode (graph st) (e_target e)
      then (st, Inl MissingEndpoint)
      else (st\<lparr>edges := AList.update (edgeId e) e (edges st),
               graph := setEdge (graph st) (e_source e) (e_target e) e\<rparr>,
            Inr (edgeId e)))"

definition createDivergence ::
  "MemoryGraphStore \<Rightarrow> string \<Rightarrow> string \<Rightarrow> real \<Rightarrow> MemoryGraphStore \<times> (error + string)" where
  "createDivergence st sourceId targetId weight =
     addEdge st \<lparr>e_source = sourceId, e_target = targetId, e_type = divergence,
                 e_weight = weight, e_metadata = None\<rparr>"

definition createEmotionalLink ::
  "MemoryGraphStore \<Rightarrow> string \<Rightarrow> string \<Rightarrow> real \<Rightarrow> MemoryGraphStore \<times> (error + string)" where
  "createEmotionalLink st sourceId targetId weight =
     addEdge st \<lparr>e_source = sourceId, e_target = targetId, e_type = emotional,
                 e_weight = weight, e_metadata = None\<rparr>"

text \<open>\<open>addFold\<close>: the node's metadata holds the character and the emotional state, then
  the fold's own metadata; a fold that names a fracture also gets a causality edge from
  it, which raises when that fracture is not stored.\<close>

definition addFold :: "MemoryGraphStore \<Rightarrow> RecursionFold \<Rightarrow> MemoryGraphStore \<times> (error + string)" where
  "addFold st fld =
     (let node = \<lparr>n_id = fo_id fld, n_type = TFold, n_content = fo_content fld,
                  n_timestamp = fo_timestamp fld,
                  n_metadata = Some (spreadOpt
                     [(''characterId'', MStr (characterId fld)),
                      (''emotionalState'', metaOfEmotionalState (emotionalState fld))]
                     (fo_metadata fld))\<rparr>;
          (st1, nodeId) = addNode st node
      in case fractureEventId fld of
           None \<Rightarrow> (st1, Inr nodeId)
         | Some fid \<Rightarrow>
             if fid = [] then (st1, Inr nodeId)
             else (case addEdge st1 \<lparr>e_source = fid, e_target = nodeId, e_type = causality,
                                      e_weight = 1, e_metadata = None\<rparr> of
                     (st2, Inl err) \<Rightarrow> (st2, Inl err)
                   | (st2, Inr _) \<Rightarrow> (st2, Inr nodeId)))"

definition addPremonition :: "MemoryGraphStore \<Rightarrow> Premonition \<Rightarrow> MemoryGraphStore \<times> string" where
  "addPremonition st p =
     addNode st \<lparr>n_id = fo_id p, n_type = TPremonition, n_content = fo_content p,
                 n_timestamp = fo_timestamp p,
                 n_metadata = Some (spreadOpt
                    [(''characterId'', MStr (characterId p)),
                     (''emotionalState'', metaOfEmotionalState (emotionalState p)),
                     (''validityWindow'', MNum (real_of_int (validityWindow p))),
                     (''bindingCriteria'', metaOfBindingCriteria (bindingCriteria p))]
                    (fo_metadata p))\<rparr>"

text \<open>\<open>addMemory\<close>; the fresh id and the clock are parameters.\<close>

definition addMemory ::
  "MemoryGraphStore \<Rightarrow> string \<Rightarrow> int \<Rightarrow> string \<Rightarrow> string \<Rightarrow> metadata option
     \<Rightarrow> MemoryGraphStore \<times> string" where
  "addMemory st uuid now content cid md =
     addNode st \<lparr>n_id = uuid, n_type = TMemory, n_content = content, n_timestamp = now,
                 n_metadata = Some (spreadOpt [(''characterId'', MStr cid)] md)\<rparr>"

definition getNode :: "MemoryGraphStore \<Rightarrow> string \<Rightarrow> MemoryNode option" where
  "getNode st nodeId = map_of (nodes st) nodeId"

definition getAllNodes :: "MemoryGraphStore \<Rightarrow> MemoryNode list" where
  "getAllNodes st = map snd (nodes st)"

definition getAllEdges :: "MemoryGraphStore \<Rightarrow> MemoryEdge list" where
  "getAllEdges st = map snd (edges st)"

definition getNodesByType :: "MemoryGraphStore \<Rightarrow> NodeType \<Rightarrow> MemoryNode list" where
  "getNodesByType st t = filter (\<lambda>node. n_type node = t) (map snd (nodes st))"

definition getSuccessors :: "MemoryGraphStore \<Rightarrow> string \<Rightarrow> MemoryNode list" where
  "getSuccessors st nodeId =
     (let successorIds = (case successors (graph st) nodeId of None \<Rightarrow> [] | Some ids \<Rightarrow> ids)
      in List.map_filter (\<lambda>i. map_of (nodes st) i) successorIds)"

definition getEdgesBetween :: "MemoryGraphStore \<Rightarrow> string \<Rightarrow> string \<Rightarrow> MemoryEdge list" where
  "getEdgesBetween st sourceId targetId =
     (case edge (graph st) sourceId targetId of None \<Rightarrow> [] | Some edgeObject \<Rightarrow> [edgeObject])"

text \<open>
  \<open>getCanonicalPath\<close> and the kernel's memory traversal read a pair of nodes in the same
  way: \<open>edges = getEdgesBetween(current, successor.id)\<close>, skip the successor when the
  list is empty, else take \<open>edges[0]\<close>.
\<close>

definition firstEdgeBetween :: "MemoryGraphStore \<Rightarrow> string \<Rightarrow> string \<Rightarrow> MemoryEdge option" where
  "firstEdgeBetween st sourceId targetId =
     (case getEdgesBetween st sourceId targetId of [] \<Rightarrow> None | e # _ \<Rightarrow> Some e)"

text \<open>The selection loop of \<open>getCanonicalPath\<close> over the successors of the current node:
  the pair \<open>(bestSuccessor, bestWeight)\<close> is replaced by each unvisited successor whose
  edge weighs strictly more.\<close>

fun selectBest ::
  "MemoryGraphStore \<Rightarrow> string \<Rightarrow> string list \<Rightarrow> MemoryNode list
     \<Rightarrow> MemoryNode option \<times> real \<Rightarrow> MemoryNode option \<times> real" where
  "selectBest st current visited [] best = best"
| "selectBest st current visited (successor # rest) best =
     (if n_id successor \<in> set visited then selectBest st current visited rest best
      else (case firstEdgeBetween st current (n_id successor) of
              None \<Rightarrow> selectBest st current visited rest best
            | Some e \<Rightarrow>
                if e_weight e > snd best
                then selectBest st current visited rest (Some successor, e_weight e)
                else selectBest st current visited rest best))"

definition bestSuccessor :: "MemoryGraphStore \<Rightarrow> string \<Rightarrow> string list \<Rightarrow> MemoryNode option" where
  "bestSuccessor st current visited =
     fst (selectBest st current visited (getSuccessors st current) (None, - 1))"

section \<open>Premonition Matcher (premonitionMatcher.ts)\<close>

record PremonitionState =
  premonition :: Premonition
  createdAtTurn :: int
  expiresAtTurn :: int
  bindingAttempts :: int
  isBound :: bool

record Binding =
  premonitionId :: string
  fractureId :: string
  b_timestamp :: int
  matchScore :: real

text \<open>The two events the matcher emits, in the order of emission.\<close>

datatype MatcherEvent = BindingEvent Binding | PremonitionExpired string

record PremonitionMatcher =
  memoryGraph :: MemoryGraphStore
  activePremonitions :: "(string \<times> PremonitionState) list"
  turnCounter :: int

definition newMatcher :: "MemoryGraphStore \<Rightarrow> PremonitionMatcher" where
  "newMatcher st = \<lparr>memoryGraph = st, activePremonitions = [], turnCounter = 0\<rparr>"

definition pm_addPremonition :: "PremonitionMatcher \<Rightarrow> Premonition \<Rightarrow> PremonitionMatcher" where
  "pm_addPremonition m p =
     m\<lparr>memoryGraph := fst (addPremonition (memoryGraph m) p),
       activePremonitions :=
         AList.update (fo_id p)
           \<lparr>premonition = p, createdAtTurn = turnCounter m,
            expiresAtTurn = turnCounter m + validityWindow p,
            bindingAttempts = 0, isBound = False\<rparr>
           (activePremonitions m)\<rparr>"

definition calculateBindingStrength :: "BindingCriteria \<Rightarrow> real" where
  "calculateBindingStrength criteria =
     contentSimilarity criteria * 0.4 + emotionalAlignment criteria * 0.3
     + (case bc_keywords criteria of
          None \<Rightarrow> 0
        | Some ks \<Rightarrow> if length ks > 0 then 0.3 * min 1 (real (length ks) / 5) else 0)"

definition calculateKeywordMatch :: "string list \<Rightarrow> string \<Rightarrow> real" where
  "calculateKeywordMatch ks txt =
     (let normalizedText = toLowerCase txt;
          matchCount = length (filter (\<lambda>keyword. includesStr normalizedText (toLowerCase keyword)) ks)
      in if length ks > 0 then real matchCount / real (length ks) else 0)"

definition calculateMatchScore :: "Premonition \<Rightarrow> FractureEvent \<Rightarrow> real" where
  "calculateMatchScore p fracture =
     (let criteria = bindingCriteria p;
          similarity = calculateContentSimilarity (fo_content p) (fr_content fracture);
          score1 = similarity * contentSimilarity criteria;
          score2 = score1 + 0.5 * emotionalAlignment criteria
      in case bc_keywords criteria of
           None \<Rightarrow> score2
         | Some ks \<Rightarrow>
             if length ks > 0
             then score2 + calculateKeywordMatch ks (fr_content fracture) * 0.3
             else score2)"

text \<open>
  The threshold divides by the validity window. For a window of zero JavaScript yields a
  non-finite quotient, which the result type keeps apart: with turns remaining the
  quotient is \<open>+Infinity\<close> and so is the threshold; with none remaining it is \<open>NaN\<close>;
  past the expiry turn the quotient is \<open>-Infinity\<close> and the expiration factor is capped
  at 0.2.
\<close>

datatype threshold = Finite real | Infinite | NotANumber

definition getBindingThreshold :: "int \<Rightarrow> PremonitionState \<Rightarrow> threshold" where
  "getBindingThreshold turn state =
     (let baseThreshold = 0.7;
          attemptFactor = min 0.2 (real_of_int (bindingAttempts state) * 0.05);
          remainingTurns = expiresAtTurn state - turn;
          window = validityWindow (premonition state)
      in if window = 0 then
           (if remainingTurns = 0 then NotANumber
            else if remainingTurns > 0 then Infinite
            else Finite (max 0.3 (baseThreshold - attemptFactor - 0.2)))
         else
           (let expirationFactor =
                  min 0.2 ((1 - real_of_int remainingTurns / real_of_int window) * 0.2)
            in Finite (max 0.3 (baseThreshold - attemptFactor - expirationFactor))))"

text \<open>\<open>score >= threshold\<close>: false against \<open>NaN\<close> and against \<open>+Infinity\<close>.\<close>

fun reaches :: "real \<Rightarrow> threshold \<Rightarrow> bool" where
  "reaches score (Finite t) = (score \<ge> t)"
| "reaches score Infinite = False"
| "reaches score NotANumber = False"

text \<open>
  \<open>bindPremonition\<close>: the edge insertion comes first and raises when an endpoint is not
  stored; the \<open>binding\<close> event is emitted only after it.
\<close>

definition bindPremonition ::
  "int \<Rightarrow> PremonitionMatcher \<Rightarrow> Premonition \<Rightarrow> FractureEvent
     \<Rightarrow> PremonitionMatcher \<times> MatcherEvent list \<times> error option" where
  "bindPremonition now m p fracture =
     (let binding = \<lparr>premonitionId = fo_id p, fractureId = fr_id fracture, b_timestamp = now,
                     matchScore = calculateMatchScore p fracture\<rparr>
      in case addEdge (memoryGraph m)
                \<lparr>e_source = fo_id p, e_target = fr_id fracture, e_type = causality,
                 e_weight = matchScore binding,
                 e_metadata = Some [(''bindingTimestamp'', MNum (real_of_int (b_timestamp binding))),
                                    (''bindingType'', MStr ''premonition'')]\<rparr> of
           (st', Inl err) \<Rightarrow> (m\<lparr>memoryGraph := st'\<rparr>, [], Some err)
         | (st', Inr _) \<Rightarrow> (m\<lparr>memoryGraph := st'\<rparr>, [BindingEvent binding], None))"

text \<open>
  The body of the \<open>for\<close> loop of \<open>processFracture\<close> over the sorted snapshot of the
  states. Each state object is written back under its key of the map; an error raised by
  a bind ends the loop and the call.
\<close>

fun attemptBindings ::
  "int \<Rightarrow> FractureEvent \<Rightarrow> (string \<times> PremonitionState) list \<Rightarrow> PremonitionMatcher
     \<Rightarrow> MatcherEvent list \<Rightarrow> PremonitionMatcher \<times> MatcherEvent list \<times> error option" where
  "attemptBindings now fracture [] m evs = (m, evs, None)"
| "attemptBindings now fracture ((k, state) # rest) m evs =
     (if isBound state \<or> turnCounter m > expiresAtTurn state
      then attemptBindings now fracture rest m evs
      else
        (let state1 = state\<lparr>bindingAttempts := bindingAttempts state + 1\<rparr>;
             m1 = m\<lparr>activePremonitions := AList.update k state1 (activePremonitions m)\<rparr>;
             score = calculateMatchScore (premonition state1) fracture
         in if reaches score (getBindingThreshold (turnCounter m1) state1) then
              (case bindPremonition now m1 (premonition state1) fracture of
                 (m2, evs2, Some err) \<Rightarrow> (m2, evs @ evs2, Some err)
               | (m2, evs2, None) \<Rightarrow>
                   attemptBindings now fracture rest
                     (m2\<lparr>activePremonitions :=
                           AList.update k (state1\<lparr>isBound := True\<rparr>) (activePremonitions m2)\<rparr>)
                     (evs @ evs2))
            else attemptBindings now fracture rest m1 evs))"

definition cleanupExpiredPremonitions ::
  "PremonitionMatcher \<Rightarrow> PremonitionMatcher \<times> MatcherEvent list" where
  "cleanupExpiredPremonitions m =
     (let expired = filter (\<lambda>kv. turnCounter m > expiresAtTurn (snd kv)) (activePremonitions m)
      in (m\<lparr>activePremonitions :=
              foldl (\<lambda>al kv. AList.delete (fst kv) al) (activePremonitions m) expired\<rparr>,
          map (\<lambda>kv. PremonitionExpired (fst kv)) expired))"

text \<open>
  \<open>processFracture\<close>: the states are sorted by descending binding strength (the sort is
  stable); the expiry sweep runs only when the loop has not raised. The result is the
  matcher as the call leaves it, the events emitted, and the error raised if any.
\<close>

definition pm_processFracture ::
  "int \<Rightarrow> PremonitionMatcher \<Rightarrow> FractureEvent
     \<Rightarrow> PremonitionMatcher \<times> MatcherEvent list \<times> error option" where
  "pm_processFracture now m fracture =
     (let m1 = m\<lparr>turnCounter := turnCounter m + 1\<rparr>;
          premonitionStates =
            sort_key (\<lambda>kv. - calculateBindingStrength (bindingCriteria (premonition (snd kv))))
              (activePremonitions m1)
      in case attemptBindings now fracture premonitionStates m1 [] of
           (m2, evs, Some err) \<Rightarrow> (m2, evs, Some err)
         | (m2, evs, None) \<Rightarrow>
             (let (m3, evs3) = cleanupExpiredPremonitions m2 in (m3, evs @ evs3, None)))"

definition getActivePremonitions :: "PremonitionMatcher \<Rightarrow> Premonition list" where
  "getActivePremonitions m =
     map (\<lambda>kv. premonition (snd kv))
       (filter (\<lambda>kv. \<not> isBound (snd kv) \<and> turnCounter m \<le> expiresAtTurn (snd kv))
          (activePremonitions m))"

definition getBoundPremonitions :: "PremonitionMatcher \<Rightarrow> Premonition list" where
  "getBoundPremonitions m =
     map (\<lambda>kv. premonition (snd kv)) (filter (\<lambda>kv. isBound (snd kv)) (activePremonitions m))"


section \<open>Interaction Binding Logic (interactionBindingLogic.ts)\<close>

datatype BindingStatus = pending | resolved

record BindingState =
  bs_fractureId :: string
  boundFoldIds :: "string list"
  selectedFoldId :: "string option"
  bs_timestamp :: int
  status :: BindingStatus

text \<open>The \<open>interaction\<close> events emitted by the operations modelled here.\<close>

datatype Interaction =
    FoldBinding string string int
  | DeferredFold string int

record InteractionBindingLogic =
  ib_memoryGraph :: MemoryGraphStore
  pendingBindings :: "(string \<times> BindingState) list"
  selectedResponses :: "(string \<times> string) list"

definition newBindingLogic :: "MemoryGraphStore \<Rightarrow> InteractionBindingLogic" where
  "newBindingLogic st = \<lparr>ib_memoryGraph = st, pendingBindings = [], selectedResponses = []\<rparr>"

definition emptyBinding :: "string \<Rightarrow> int \<Rightarrow> BindingState" where
  "emptyBinding fid now =
     \<lparr>bs_fractureId = fid, boundFoldIds = [], selectedFoldId = None, bs_timestamp = now,
      status = pending\<rparr>"

definition bindFoldToFracture ::
  "int \<Rightarrow> InteractionBindingLogic \<Rightarrow> string \<Rightarrow> string
     \<Rightarrow> InteractionBindingLogic \<times> Interaction list" where
  "bindFoldToFracture now l foldId fid =
     (let bindingState = (case map_of (pendingBindings l) fid of
                            None \<Rightarrow> emptyBinding fid now
                          | Some b \<Rightarrow> b);
          bindingState' = (if foldId \<in> set (boundFoldIds bindingState) then bindingState
                           else bindingState\<lparr>boundFoldIds := boundFoldIds bindingState @ [foldId]\<rparr>)
      in (l\<lparr>pendingBindings := AList.update fid bindingState' (pendingBindings l)\<rparr>,
          [FoldBinding foldId fid now]))"

definition storeDeferredFold ::
  "int \<Rightarrow> InteractionBindingLogic \<Rightarrow> RecursionFold
     \<Rightarrow> InteractionBindingLogic \<times> Interaction list" where
  "storeDeferredFold now l fld = (l, [DeferredFold (fo_id fld) now])"

text \<open>\<open>!node.metadata?.fractureEventId\<close>: the node counts as deferred when its metadata
  is missing, has no such key, or holds a falsy value there.\<close>

definition isDeferred :: "MemoryNode \<Rightarrow> bool" where
  "isDeferred node =
     (case n_metadata node of
        None \<Rightarrow> True
      | Some md \<Rightarrow> (case map_of md ''fractureEventId'' of None \<Rightarrow> True | Some v \<Rightarrow> \<not> truthy v))"

definition deferredEdge :: "int \<Rightarrow> MemoryNode \<Rightarrow> FractureEvent \<Rightarrow> real \<Rightarrow> MemoryEdge" where
  "deferredEdge now foldNode fracture similarity =
     \<lparr>e_source = n_id foldNode, e_target = fr_id fracture, e_type = causality,
      e_weight = similarity,
      e_metadata = Some [(''bindingType'', MStr ''deferred''),
                         (''bindingTimestamp'', MNum (real_of_int now)),
                         (''fractureEventId'', MStr (fr_id fracture))]\<rparr>"

text \<open>The loop of \<open>checkDeferredBindings\<close> over the deferred fold nodes.\<close>

fun bindDeferredFolds ::
  "int \<Rightarrow> FractureEvent \<Rightarrow> MemoryNode list \<Rightarrow> InteractionBindingLogic \<Rightarrow> Interaction list
     \<Rightarrow> InteractionBindingLogic \<times> Interaction list \<times> error option" where
  "bindDeferredFolds now fracture [] l evs = (l, evs, None)"
| "bindDeferredFolds now fracture (foldNode # rest) l evs =
     (let similarity = calculateContentSimilarity (n_content foldNode) (fr_content fracture)
      in if similarity > 0.5 then
           (case addEdge (ib_memoryGraph l) (deferredEdge now foldNode fracture similarity) of
              (st', Inl err) \<Rightarrow> (l\<lparr>ib_memoryGraph := st'\<rparr>, evs, Some err)
            | (st', Inr _) \<Rightarrow>
                (let (l2, evs2) = bindFoldToFracture now (l\<lparr>ib_memoryGraph := st'\<rparr>)
                                    (n_id foldNode) (fr_id fracture)
                 in bindDeferredFolds now fracture rest l2 (evs @ evs2)))
         else bindDeferredFolds now fracture rest l evs)"

definition checkDeferredBindings ::
  "int \<Rightarrow> InteractionBindingLogic \<Rightarrow> FractureEvent
     \<Rightarrow> InteractionBindingLogic \<times> Interaction list \<times> error option" where
  "checkDeferredBindings now l fracture =
     (let foldNodes = getNodesByType (ib_memoryGraph l) TFold;
          deferredFolds = filter isDeferred foldNodes
      in bindDeferredFolds now fracture deferredFolds l [])"

text \<open>
  \<open>processFracture\<close>: store the fracture, run the deferred bindings, and only then set
  the binding record of the fracture id to a new record with an empty list.
\<close>

definition ib_processFracture ::
  "int \<Rightarrow> InteractionBindingLogic \<Rightarrow> FractureEvent
     \<Rightarrow> InteractionBindingLogic \<times> Interaction list \<times> error option" where
  "ib_processFracture now l fracture =
     (let l1 = l\<lparr>ib_memoryGraph := fst (addFracture (ib_memoryGraph l) fracture)\<rparr>
      in case checkDeferredBindings now l1 fracture of
           (l2, evs, Some err) \<Rightarrow> (l2, evs, Some err)
         | (l2, evs, None) \<Rightarrow>
             (l2\<lparr>pendingBindings :=
                   AList.update (fr_id fracture) (emptyBinding (fr_id fracture) now)
                     (pendingBindings l2)\<rparr>,
              evs, None))"

definition processFold ::
  "int \<Rightarrow> InteractionBindingLogic \<Rightarrow> RecursionFold
     \<Rightarrow> InteractionBindingLogic \<times> Interaction list \<times> error option" where
  "processFold now l fld =
     (case addFold (ib_memoryGraph l) fld of
        (st', Inl err) \<Rightarrow> (l\<lparr>ib_memoryGraph := st'\<rparr>, [], Some err)
      | (st', Inr _) \<Rightarrow>
          (let l1 = l\<lparr>ib_memoryGraph := st'\<rparr>;
               bound = (case fractureEventId fld of None \<Rightarrow> None
                        | Some fid \<Rightarrow> if fid = [] then None else Some fid)
           in case bound of
                Some fid \<Rightarrow>
                  (let (l2, evs) = bindFoldToFracture now l1 (fo_id fld) fid in (l2, evs, None))
              | None \<Rightarrow>
                  (let (l2, evs) = storeDeferredFold now l1 fld in (l2, evs, None))))"

definition getResponsesForFracture :: "InteractionBindingLogic \<Rightarrow> string \<Rightarrow> string list" where
  "getResponsesForFracture l fid =
     (case map_of (pendingBindings l) fid of None \<Rightarrow> [] | Some b \<Rightarrow> boundFoldIds b)"

section \<open>Collapse Engine (collapseEngine.ts)\<close>

text \<open>
  A pending fold is a \<open>RecursionFold\<close> object. The one that \<open>bindPremonitionToFracture\<close>
  builds by spreading a premonition still carries the premonition's two extra fields.
\<close>

datatype FoldObject = Fold RecursionFold | FoldOfPremonition Premonition

fun asFold :: "FoldObject \<Rightarrow> RecursionFold" where
  "asFold (Fold f) = f"
| "asFold (FoldOfPremonition p) = RecursionFold.truncate p"

datatype EngineEvent = RecursionFoldEvent FoldObject | PremonitionEvent Premonition

text \<open>The three tables of the engine; its kernel reference and configuration are not
  read by the operation modelled here.\<close>

record CollapseEngine =
  activeFractures :: "(string \<times> FractureEvent) list"
  pendingFolds :: "(string \<times> FoldObject) list"
  pendingPremonitions :: "(string \<times> Premonition) list"

definition newEngine :: CollapseEngine where
  "newEngine = \<lparr>activeFractures = [], pendingFolds = [], pendingPremonitions = []\<rparr>"

text \<open>\<open>bindPremonitionToFracture\<close>; the first argument is the id drawn from \<open>uuidv4()\<close>.
  The result is the engine after the call, the events emitted, and the value returned.\<close>

definition bindPremonitionToFracture ::
  "string \<Rightarrow> CollapseEngine \<Rightarrow> string \<Rightarrow> string \<Rightarrow> CollapseEngine \<times> EngineEvent list \<times> bool" where
  "bindPremonitionToFracture uuid e pid fid =
     (case map_of (pendingPremonitions e) pid of
        None \<Rightarrow> (e, [], False)
      | Some p \<Rightarrow>
          (case map_of (activeFractures e) fid of
             None \<Rightarrow> (e, [], False)
           | Some fracture \<Rightarrow>
               (let boundFold = p\<lparr>fo_id := uuid, fractureEventId := Some fid\<rparr>;
                    e1 = e\<lparr>pendingPremonitions := AList.delete pid (pendingPremonitions e)\<rparr>;
                    e2 = e1\<lparr>pendingFolds :=
                              AList.update (fo_id boundFold) (FoldOfPremonition boundFold)
                                (pendingFolds e1)\<rparr>
                in (e2, [RecursionFoldEvent (FoldOfPremonition boundFold)], True))))"

definition getPendingFolds :: "CollapseEngine \<Rightarrow> FoldObject list" where
  "getPendingFolds e = map snd (pendingFolds e)"

definition getPendingPremonitions :: "CollapseEngine \<Rightarrow> Premonition list" where
  "getPendingPremonitions e = map snd (pendingPremonitions e)"

section \<open>Character Kernel (characterKernel.ts)\<close>

text \<open>
  Tone profiles, their \<open>variations\<close> tables and mutation schemas are JavaScript objects
  held by reference, and the kernel copies them shallowly, so they live in explicit heaps:
  a reference is an address, each heap maps every address to the object stored there, and
  \<open>nextRef\<close> is the next unused address. A \<open>CharacterField\<close> object is created once per
  id and kept only under that id, so it is stored in the character table itself.
\<close>

type_synonym ref = nat

text \<open>
  The weights of a \<open>variations\<close> table are JavaScript numbers: a real, or \<open>NaN\<close>. On
  reals the arithmetic of the kernel gives reals (its one division on weights is guarded
  by \<open>sumOtherWeights > 0\<close>); \<open>NaN\<close> arises where an operand is not a number, and every
  operation hands it on. A comparison with \<open>NaN\<close> is false.
\<close>

datatype number = Num real | NaN

fun numAdd :: "number \<Rightarrow> number \<Rightarrow> number" where
  "numAdd (Num x) (Num y) = Num (x + y)"
| "numAdd _ _ = NaN"

fun numSub :: "number \<Rightarrow> number \<Rightarrow> number" where
  "numSub (Num x) (Num y) = Num (x - y)"
| "numSub _ _ = NaN"

fun numMul :: "number \<Rightarrow> number \<Rightarrow> number" where
  "numMul (Num x) (Num y) = Num (x * y)"
| "numMul _ _ = NaN"

fun mathMin :: "number \<Rightarrow> number \<Rightarrow> number" where
  "mathMin (Num x) (Num y) = Num (min x y)"
| "mathMin _ _ = NaN"

text \<open>\<open>let sum = 0; for (...) sum += v\<close> over a list of values.\<close>

definition numSum :: "number list \<Rightarrow> number" where
  "numSum vs = foldl numAdd (Num 0) vs"

text \<open>
  A \<open>variations\<close> table is a plain object, so next to its own keys it has the members it
  inherits from \<open>Object.prototype\<close>. The operator \<open>in\<close> finds both. Reading an inherited
  member gives a function (for \<open>__proto__\<close> an object), never a number: \<open>+\<close> makes a string
  of it and \<open>Math.min\<close> and \<open>-\<close> make \<open>NaN\<close> of that, so as an operand of the kernel's
  arithmetic it counts as \<open>NaN\<close>. Writing under an inherited name creates an own key, at
  the end of the key order, except for \<open>__proto__\<close>, whose setter ignores a number.
\<close>

definition objectPrototypeKeys :: "string list" where
  "objectPrototypeKeys =
     [''constructor'', ''__defineGetter__'', ''__defineSetter__'', ''hasOwnProperty'',
      ''__lookupGetter__'', ''__lookupSetter__'', ''isPrototypeOf'', ''propertyIsEnumerable'',
      ''toString'', ''valueOf'', ''__proto__'', ''toLocaleString'']"

definition hasProperty :: "string \<Rightarrow> (string \<times> number) list \<Rightarrow> bool" where
  "hasProperty key obj = (map_of obj key \<noteq> None \<or> key \<in> set objectPrototypeKeys)"

definition getOperand :: "(string \<times> number) list \<Rightarrow> string \<Rightarrow> number" where
  "getOperand obj key = (case map_of obj key of Some v \<Rightarrow> v | None \<Rightarrow> NaN)"

definition setProperty ::
  "string \<Rightarrow> number \<Rightarrow> (string \<times> number) list \<Rightarrow> (string \<times> number) list" where
  "setProperty key v obj =
     (if map_of obj key = None \<and> key = ''__proto__'' then obj else AList.update key v obj)"

record ToneProfile =
  baseline :: string
  variations :: ref
  adaptability :: real

record MutationSchema =
  driftRate :: real
  driftDirections :: "(string \<times> real) list"
  stabilityFactors :: "string list"

record CharacterField =
  ch_id :: string
  ch_name :: string
  toneProfile :: ref
  mutationSchema :: ref
  memoryAnchor :: string
  collapseThreshold :: real

record McTavishConfig =
  defaultCollapseThreshold :: real
  premonitionValidityWindow :: int
  mutationRate :: real
  emotionalMemoryWeight :: real
  contradictionTolerance :: real

record CharacterKernel =
  characters :: "(string \<times> CharacterField) list"
  k_memoryGraph :: MemoryGraphStore
  config :: McTavishConfig
  emotionalStates :: "(string \<times> EmotionalState) list"
  toneProfileHeap :: "ref \<Rightarrow> ToneProfile"
  variationsHeap :: "ref \<Rightarrow> (string \<times> number) list"
  schemaHeap :: "ref \<Rightarrow> MutationSchema"
  nextRef :: ref

definition newKernel :: "MemoryGraphStore \<Rightarrow> McTavishConfig \<Rightarrow> CharacterKernel" where
  "newKernel st cfg =
     \<lparr>characters = [], k_memoryGraph = st, config = cfg, emotionalStates = [],
      toneProfileHeap = (\<lambda>_. \<lparr>baseline = [], variations = 0, adaptability = 0\<rparr>),
      variationsHeap = (\<lambda>_. []),
      schemaHeap = (\<lambda>_. \<lparr>driftRate = 0, driftDirections = [], stabilityFactors = []\<rparr>),
      nextRef = 0\<rparr>"

text \<open>\<open>Partial<ToneProfile>\<close>, \<open>Partial<MutationSchema>\<close> and \<open>Partial<EmotionalState>\<close>:
  every field may be absent.\<close>

record PartialToneProfile =
  pt_baseline :: "string option"
  pt_variations :: "(string \<times> number) list option"
  pt_adaptability :: "real option"

record PartialMutationSchema =
  pm_driftRate :: "real option"
  pm_driftDirections :: "(string \<times> real) list option"
  pm_stabilityFactors :: "string list option"

record PartialEmotionalState =
  pe_dominant :: "string option"
  pe_secondary :: "string option"
  pe_intensity :: "real option"
  pe_stability :: "real option"

definition orElse :: "'a option \<Rightarrow> 'a \<Rightarrow> 'a" where
  "orElse x d = (case x of None \<Rightarrow> d | Some v \<Rightarrow> v)"

text \<open>\<open>createCharacter\<close>; the ids of the anchor node and of the character and the
  clock are parameters. The three objects of the new character get fresh addresses.\<close>

definition createCharacter ::
  "CharacterKernel \<Rightarrow> string \<Rightarrow> string \<Rightarrow> int \<Rightarrow> string \<Rightarrow> PartialToneProfile
     \<Rightarrow> PartialMutationSchema \<Rightarrow> real option \<Rightarrow> CharacterKernel \<times> string" where
  "createCharacter k anchorUuid charUuid now name tp ms ct =
     (let defaultVariations = [(''joy'', Num 0.2), (''sadness'', Num 0.2), (''anger'', Num 0.1),
                               (''fear'', Num 0.1), (''surprise'', Num 0.2), (''disgust'', Num 0.1)];
          defaultDirections = [(''openness'', 0.2), (''conscientiousness'', 0.2),
                               (''extraversion'', 0.2), (''agreeableness'', 0.2),
                               (''neuroticism'', 0.2)];
          (st1, memoryAnchorId) =
             addMemory (k_memoryGraph k) anchorUuid now (''Character creation: '' @ name)
               ''system'' (Some [(''type'', MStr ''character_anchor'')]);
          vref = nextRef k;
          tref = nextRef k + 1;
          sref = nextRef k + 2;
          profile = \<lparr>baseline = orElse (pt_baseline tp) ''neutral'', variations = vref,
                     adaptability = orElse (pt_adaptability tp) 0.5\<rparr>;
          schema = \<lparr>driftRate = orElse (pm_driftRate ms) (mutationRate (config k)),
                    driftDirections = orElse (pm_driftDirections ms) defaultDirections,
                    stabilityFactors =
                      orElse (pm_stabilityFactors ms) [''core_memory'', ''repeated_interaction'']\<rparr>;
          character = \<lparr>ch_id = charUuid, ch_name = name, toneProfile = tref,
                       mutationSchema = sref, memoryAnchor = memoryAnchorId,
                       collapseThreshold = orElse ct (defaultCollapseThreshold (config k))\<rparr>
      in (k\<lparr>k_memoryGraph := st1,
            variationsHeap := (variationsHeap k)(vref := orElse (pt_variations tp) defaultVariations),
            toneProfileHeap := (toneProfileHeap k)(tref := profile),
            schemaHeap := (schemaHeap k)(sref := schema),
            nextRef := nextRef k + 3,
            emotionalStates :=
              AList.update charUuid
                \<lparr>dominant = baseline profile, secondary = None, intensity = 0.5, stability = 0.7\<rparr>
                (emotionalStates k),
            characters := AList.update charUuid character (characters k)\<rparr>,
          charUuid))"

definition getCharacter :: "CharacterKernel \<Rightarrow> string \<Rightarrow> CharacterField option" where
  "getCharacter k cid = map_of (characters k) cid"

definition getEmotionalState :: "CharacterKernel \<Rightarrow> string \<Rightarrow> EmotionalState option" where
  "getEmotionalState k cid = map_of (emotionalStates k) cid"

text \<open>What a caller reads as \<open>getCharacter(id).toneProfile.variations\<close> and as
  \<open>getCharacter(id).mutationSchema\<close>.\<close>

definition toneVariations ::
  "CharacterKernel \<Rightarrow> string \<Rightarrow> (string \<times> number) list option" where
  "toneVariations k cid =
     (case getCharacter k cid of
        None \<Rightarrow> None
      | Some c \<Rightarrow> Some (variationsHeap k (variations (toneProfileHeap k (toneProfile c)))))"

definition mutationRules :: "CharacterKernel \<Rightarrow> string \<Rightarrow> MutationSchema option" where
  "mutationRules k cid =
     (case getCharacter k cid of
        None \<Rightarrow> None
      | Some c \<Rightarrow> Some (schemaHeap k (mutationSchema c)))"

definition updateEmotionalState ::
  "CharacterKernel \<Rightarrow> string \<Rightarrow> PartialEmotionalState \<Rightarrow> CharacterKernel" where
  "updateEmotionalState k cid es =
     (case map_of (emotionalStates k) cid of
        None \<Rightarrow> k
      | Some currentState \<Rightarrow>
          k\<lparr>emotionalStates :=
              AList.update cid
                \<lparr>dominant = orElse (pe_dominant es) (dominant currentState),
                 secondary = (case pe_secondary es of None \<Rightarrow> secondary currentState
                              | Some s \<Rightarrow> Some s),
                 intensity = orElse (pe_intensity es) (intensity currentState),
                 stability = orElse (pe_stability es) (stability currentState)\<rparr>
                (emotionalStates k)\<rparr>)"

text \<open>
  The in-place update of the \<open>variations\<close> table by \<open>applyMutation\<close>: when \<open>in\<close> finds
  the dominant emotion, its weight is raised and capped at 1, and the other weights (the
  own keys that are not the dominant emotion) are rescaled to the remaining total if they
  sum to more than 0. When the dominant emotion is only an inherited member name, the
  raised weight and the remaining total are \<open>NaN\<close>.
\<close>

definition mutateVariations ::
  "real \<Rightarrow> EmotionalState \<Rightarrow> (string \<times> number) list \<Rightarrow> (string \<times> number) list" where
  "mutateVariations rate es vs =
     (if hasProperty (dominant es) vs then
        (let raised = mathMin (Num 1)
                        (numAdd (getOperand vs (dominant es)) (Num (rate * intensity es)));
             vs1 = setProperty (dominant es) raised vs;
             totalOtherWeight = numSub (Num 1) (getOperand vs1 (dominant es));
             otherEmotions = filter (\<lambda>kv. fst kv \<noteq> dominant es) vs1;
             sumOtherWeights = numSum (map snd otherEmotions)
         in case sumOtherWeights of
              NaN \<Rightarrow> vs1
            | Num s \<Rightarrow>
                if s > 0
                then map (\<lambda>kv. if fst kv \<noteq> dominant es
                                then (fst kv,
                                      numMul (case snd kv of Num x \<Rightarrow> Num (x / s) | NaN \<Rightarrow> NaN)
                                        totalOtherWeight)
                                else kv) vs1
                else vs1)
      else vs)"

text \<open>
  \<open>applyMutation\<close>. The new stability is
  \<open>Math.min(1, this.emotionalStates.get(characterId)?.stability ?? 0.5 + 0.1)\<close>, in which
  \<open>+\<close> binds tighter than \<open>??\<close>. The spread \<open>{ ...character.toneProfile }\<close> makes a new
  profile object that still points to the old \<open>variations\<close> table, which is then written
  in place.
\<close>

definition applyMutation :: "CharacterKernel \<Rightarrow> string \<Rightarrow> RecursionFold \<Rightarrow> CharacterKernel" where
  "applyMutation k cid fld =
     (case getCharacter k cid of
        None \<Rightarrow> k
      | Some character \<Rightarrow>
          (let schema = schemaHeap k (mutationSchema character);
               es = emotionalState fld;
               k1 = updateEmotionalState k cid
                      \<lparr>pe_dominant = Some (dominant es), pe_secondary = None,
                       pe_intensity = Some (intensity es),
                       pe_stability =
                         Some (min 1 (case map_of (emotionalStates k) cid of
                                        Some currentState \<Rightarrow> stability currentState
                                      | None \<Rightarrow> 0.5 + 0.1))\<rparr>;
               oldProfile = toneProfileHeap k1 (toneProfile character);
               vref = variations oldProfile;
               k2 = k1\<lparr>variationsHeap :=
                        (variationsHeap k1)
                          (vref := mutateVariations (driftRate schema) es (variationsHeap k1 vref))\<rparr>;
               newProfile = oldProfile\<lparr>baseline := (if stability es > 0.7 then dominant es
                                                      else baseline oldProfile)\<rparr>;
               tref = nextRef k2;
               k3 = k2\<lparr>toneProfileHeap := (toneProfileHeap k2)(tref := newProfile),
                       nextRef := tref + 1\<rparr>;
               intensityFactor = intensity es * 0.2;
               character' = character\<lparr>toneProfile := tref,
                               collapseThreshold :=
                                 max 0.1 (min 0.9 (defaultCollapseThreshold (config k3)
                                                    - intensityFactor))\<rparr>
           in k3\<lparr>characters := AList.update cid character' (characters k3)\<rparr>))"

text \<open>
  \<open>forkCharacter\<close>. The spread \<open>{ ...original, id, name, memoryAnchor }\<close> copies the
  references to the tone profile and to the mutation schema, not the objects. The two
  edge insertions raise when the original's anchor is not stored.
\<close>

definition forkCharacter ::
  "CharacterKernel \<Rightarrow> string \<Rightarrow> string \<Rightarrow> int \<Rightarrow> string \<Rightarrow> string
     \<Rightarrow> CharacterKernel \<times> (error + string)" where
  "forkCharacter k anchorUuid charUuid now cid nameModifier =
     (case getCharacter k cid of
        None \<Rightarrow> (k, Inl UnknownCharacter)
      | Some original \<Rightarrow>
          (let (st1, newMemoryAnchorId) =
                 addMemory (k_memoryGraph k) anchorUuid now
                   (''Character fork: '' @ ch_name original @ '' -> '' @ ch_name original
                      @ '' ('' @ nameModifier @ '')'')
                   ''system''
                   (Some [(''type'', MStr ''character_fork''),
                          (''originalCharacterId'', MStr cid),
                          (''originalMemoryAnchor'', MStr (memoryAnchor original))])
           in case createEmotionalLink st1 (memoryAnchor original) newMemoryAnchorId 0.8 of
                (st2, Inl err) \<Rightarrow> (k\<lparr>k_memoryGraph := st2\<rparr>, Inl err)
              | (st2, Inr _) \<Rightarrow>
                  (case createDivergence st2 (memoryAnchor original) newMemoryAnchorId 0.5 of
                     (st3, Inl err) \<Rightarrow> (k\<lparr>k_memoryGraph := st3\<rparr>, Inl err)
                   | (st3, Inr _) \<Rightarrow>
                       (let forkedCharacter =
                              original\<lparr>ch_id := charUuid,
                                       ch_name := ch_name original @ '' ('' @ nameModifier @ '')'',
                                       memoryAnchor := newMemoryAnchorId\<rparr>;
                            k1 = k\<lparr>k_memoryGraph := st3,
                                   characters :=
                                     AList.update (ch_id forkedCharacter) forkedCharacter
                                       (characters k)\<rparr>;
                            k2 = (case map_of (emotionalStates k1) cid of
                                    None \<Rightarrow> k1
                                  | Some originalEmotionalState \<Rightarrow>
                                      k1\<lparr>emotionalStates :=
                                            AList.update (ch_id forkedCharacter)
                                              originalEmotionalState (emotionalStates k1)\<rparr>)
                        in (k2, Inr (ch_id forkedCharacter))))))"

text \<open>\<open>reconfigureCharacter\<close>: like \<open>applyMutation\<close> it copies the profile object and
  writes the \<open>variations\<close> table in place.\<close>

definition reconfigureVariations ::
  "EmotionalState \<Rightarrow> (string \<times> number) list \<Rightarrow> (string \<times> number) list" where
  "reconfigureVariations es vs =
     (let dominantWeight = min 0.5 (0.3 + intensity es * 0.2);
          remainingWeight = 1 - dominantWeight;
          otherEmotions = filter (\<lambda>e. e \<noteq> dominant es) (map fst vs);
          vs1 = map (\<lambda>kv. if fst kv \<noteq> dominant es
                           then (fst kv, Num (remainingWeight / real (length otherEmotions)))
                           else kv) vs
      in setProperty (dominant es) (Num dominantWeight) vs1)"

definition reconfigureCharacter ::
  "CharacterKernel \<Rightarrow> string \<Rightarrow> EmotionalState \<Rightarrow> real \<Rightarrow> CharacterKernel" where
  "reconfigureCharacter k cid es collapseThresholdAdjustment =
     (case getCharacter k cid of
        None \<Rightarrow> k
      | Some character \<Rightarrow>
          (let k1 = updateEmotionalState k cid
                      \<lparr>pe_dominant = Some (dominant es), pe_secondary = secondary es,
                       pe_intensity = Some (intensity es), pe_stability = Some (stability es)\<rparr>;
               oldProfile = toneProfileHeap k1 (toneProfile character);
               vref = variations oldProfile;
               k2 = k1\<lparr>variationsHeap :=
                        (variationsHeap k1)
                          (vref := reconfigureVariations es (variationsHeap k1 vref))\<rparr>;
               newProfile = oldProfile\<lparr>baseline := dominant es,
                                       adaptability := 1 - stability es\<rparr>;
               tref = nextRef k2;
               k3 = k2\<lparr>toneProfileHeap := (toneProfileHeap k2)(tref := newProfile),
                       nextRef := tref + 1\<rparr>;
               character' = character\<lparr>toneProfile := tref,
                               collapseThreshold :=
                                 max 0.1 (min 0.9 (collapseThreshold character
                                                    + collapseThresholdAdjustment))\<rparr>
           in k3\<lparr>characters := AList.update cid character' (characters k3)\<rparr>))"

text \<open>A tone distribution as the data model has it: one weight per emotion, no weight
  negative, all weights summing to 1.\<close>

definition unitDistribution :: "(string \<times> number) list \<Rightarrow> bool" where
  "unitDistribution vs =
     (distinct (map fst vs)
      \<and> list_all (\<lambda>kv. case snd kv of Num w \<Rightarrow> 0 \<le> w | NaN \<Rightarrow> False) vs
      \<and> numSum (map snd vs) = Num 1)"

text \<open>Consecutive \<open>applyMutation\<close> calls on one actor, one per reaction of the list.\<close>

definition applyMutations :: "CharacterKernel \<Rightarrow> string \<Rightarrow> RecursionFold list \<Rightarrow> CharacterKernel" where
  "applyMutations k cid folds = foldl (\<lambda>k' fld. applyMutation k' cid fld) k folds"

section \<open>Sequences of calls on the Echo Matcher\<close>

text \<open>
  A caller registers echoes and submits stimuli; the graph store is shared, so between
  the matcher's calls other components may change it in any way. Each \<open>processFracture\<close>
  call leaves a log entry: the turn counter it ran at, the events it emitted, the error
  it raised if any, and the matcher as it left it.
\<close>

datatype MatcherCall =
    Register Premonition
  | Process int FractureEvent
  | External "MemoryGraphStore \<Rightarrow> MemoryGraphStore"

record CallLog =
  cl_turn :: int
  cl_events :: "MatcherEvent list"
  cl_raised :: "error option"
  cl_after :: PremonitionMatcher

fun runCalls :: "PremonitionMatcher \<Rightarrow> MatcherCall list \<Rightarrow> PremonitionMatcher \<times> CallLog list" where
  "runCalls m [] = (m, [])"
| "runCalls m (Register p # calls) = runCalls (pm_addPremonition m p) calls"
| "runCalls m (External f # calls) = runCalls (m\<lparr>memoryGraph := f (memoryGraph m)\<rparr>) calls"
| "runCalls m (Process now fracture # calls) =
     (case pm_processFracture now m fracture of
        (m', evs, err) \<Rightarrow>
          (case runCalls m' calls of
             (m'', logs) \<Rightarrow>
               (m'', \<lparr>cl_turn = turnCounter m', cl_events = evs, cl_raised = err,
                      cl_after = m'\<rparr> # logs)))"

fun isBindingOf :: "string \<Rightarrow> MatcherEvent \<Rightarrow> bool" where
  "isBindingOf pid (BindingEvent b) = (premonitionId b = pid)"
| "isBindingOf pid (PremonitionExpired k) = False"

text \<open>The echo \<open>pid\<close> binds during the call; it is reported expired during the call; the
  call ran to completion at a turn beyond \<open>limit\<close>; the echo is in the active set after
  the call.\<close>

definition bindsIn :: "string \<Rightarrow> CallLog \<Rightarrow> bool" where
  "bindsIn pid entry = list_ex (isBindingOf pid) (cl_events entry)"

definition expiredIn :: "string \<Rightarrow> CallLog \<Rightarrow> bool" where
  "expiredIn pid entry = (PremonitionExpired pid \<in> set (cl_events entry))"

definition completedPast :: "int \<Rightarrow> CallLog \<Rightarrow> bool" where
  "completedPast limit entry = (cl_raised entry = None \<and> cl_turn entry > limit)"

definition activeAfter :: "string \<Rightarrow> CallLog \<Rightarrow> bool" where
  "activeAfter pid entry = (pid \<in> set (map fst (activePremonitions (cl_after entry))))"

text \<open>The table of a matcher built by its own operations: keys are distinct, and each
  state is stored under the id of its premonition.\<close>

definition matcherOk :: "PremonitionMatcher \<Rightarrow> bool" where
  "matcherOk m =
     (distinct (map fst (activePremonitions m))
      \<and> list_all (\<lambda>kv. fo_id (premonition (snd kv)) = fst kv) (activePremonitions m))"

text \<open>A snapshot of the table as the loop of \<open>processFracture\<close> takes it: distinct keys,
  each paired with the state stored under it.\<close>

definition snapshotOf :: "(string \<times> PremonitionState) list \<Rightarrow> PremonitionMatcher \<Rightarrow> bool" where
  "snapshotOf entries m =
     (distinct (map fst entries)
      \<and> (\<forall>kv \<in> set entries. map_of (activePremonitions m) (fst kv) = Some (snd kv)))"

text \<open>What a loop over a snapshot keeps: the turn counter, the keys, and under every key
  the premonition and the expiry turn.\<close>

definition keeps :: "PremonitionMatcher \<Rightarrow> PremonitionMatcher \<Rightarrow> bool" where
  "keeps m m' =
     (turnCounter m' = turnCounter m
      \<and> map fst (activePremonitions m') = map fst (activePremonitions m)
      \<and> (\<forall>k st. map_of (activePremonitions m) k = Some st \<longrightarrow>
            (\<exists>st'. map_of (activePremonitions m') k = Some st'
                 \<and> premonition st' = premonition st \<and> expiresAtTurn st' = expiresAtTurn st)))"

text \<open>An event that the loop over a snapshot can emit at the given turn: the binding of an
  echo of the snapshot that has not expired.\<close>

definition fromSnapshot ::
  "int \<Rightarrow> (string \<times> PremonitionState) list \<Rightarrow> MatcherEvent \<Rightarrow> bool" where
  "fromSnapshot turn entries ev =
     (\<exists>kv \<in> set entries. \<exists>b. ev = BindingEvent b
        \<and> premonitionId b = fo_id (premonition (snd kv)) \<and> turn \<le> expiresAtTurn (snd kv))"

text \<open>The expiry discipline of one echo over the log of a call sequence: it binds only at
  turns up to \<open>limit\<close>; up to the first call completed beyond \<open>limit\<close> it is not reported
  expired and stays active; that call reports it once and drops it; later calls do not
  mention it.\<close>

definition expiryDiscipline :: "string \<Rightarrow> int \<Rightarrow> CallLog list \<Rightarrow> bool" where
  "expiryDiscipline pid limit logs =
     ((\<forall>entry \<in> set logs. bindsIn pid entry \<longrightarrow> cl_turn entry \<le> limit)
      \<and> (\<forall>entry \<in> set (takeWhile (\<lambda>e. \<not> completedPast limit e) logs).
            \<not> expiredIn pid entry \<and> activeAfter pid entry)
      \<and> (case dropWhile (\<lambda>e. \<not> completedPast limit e) logs of
            [] \<Rightarrow> True
          | first # later \<Rightarrow>
              count_list (cl_events first) (PremonitionExpired pid) = 1
              \<and> \<not> activeAfter pid first
              \<and> (\<forall>entry \<in> set later.
                    \<not> expiredIn pid entry \<and> \<not> activeAfter pid entry \<and> \<not> bindsIn pid entry)))"

section \<open>Concrete inputs\<close>

text \<open>A store whose node table and graph name the same nodes, as every store built by
  \<open>addNode\<close> is.\<close>

definition storeConsistent :: "MemoryGraphStore \<Rightarrow> bool" where
  "storeConsistent st = (set (map fst (nodes st)) = set (map fst (g_nodes (graph st))))"

definition plainFracture :: "string \<Rightarrow> string \<Rightarrow> FractureEvent" where
  "plainFracture i c =
     \<lparr>fr_id = i, fr_content = c, fr_timestamp = 0, fr_source = user, fr_metadata = None\<rparr>"

definition plainEdge :: "string \<Rightarrow> string \<Rightarrow> EdgeType \<Rightarrow> real \<Rightarrow> MemoryEdge" where
  "plainEdge s t k w =
     \<lparr>e_source = s, e_target = t, e_type = k, e_weight = w, e_metadata = None\<rparr>"

text \<open>A store holding the single node \<open>a\<close>, and one holding \<open>a\<close> and \<open>b\<close>.\<close>

definition storeA :: MemoryGraphStore where
  "storeA = fst (addFracture newStore (plainFracture ''a'' ''first''))"

definition storeAB :: MemoryGraphStore where
  "storeAB = fst (addFracture storeA (plainFracture ''b'' ''second''))"

text \<open>Nodes \<open>a\<close>, \<open>b\<close> and \<open>c\<close>; from \<open>a\<close> to \<open>b\<close> an emotional edge of weight 0.8 and then
  a divergence edge of weight 0.5, from \<open>a\<close> to \<open>c\<close> a causality edge of weight 0.6.\<close>

definition storeABC :: MemoryGraphStore where
  "storeABC =
     fst (addEdge
       (fst (addEdge
         (fst (addEdge (fst (addFracture storeAB (plainFracture ''c'' ''third'')))
                 (plainEdge ''a'' ''b'' emotional 0.8)))
         (plainEdge ''a'' ''b'' divergence 0.5)))
       (plainEdge ''a'' ''c'' causality 0.6))"

text \<open>The echo as the simulation script emits it: capitalised, with a full stop, and with
  four keywords.\<close>

definition simulation_echo :: Premonition where
  "simulation_echo =
     \<lparr>fo_id = ''E'', fo_content = ''You're about to ask about her.'', fo_timestamp = 0,
      characterId = ''assistant'', fractureEventId = None,
      emotionalState =
        \<lparr>dominant = ''curiosity'', secondary = None, intensity = 0.8, stability = 0.4\<rparr>,
      fo_metadata = None, validityWindow = 3,
      bindingCriteria = \<lparr>contentSimilarity = 0.6, emotionalAlignment = 0.5,
                         bc_keywords = Some [''elena'', ''her'', ''she'', ''happened'']\<rparr>\<rparr>"

text \<open>Scenario A of the specification: the echo, the stimulus, and the matcher in which
  the echo was registered at turn 0 and the stimulus has been stored.\<close>

definition scenarioA_echo :: Premonition where
  "scenarioA_echo =
     \<lparr>fo_id = ''E'', fo_content = ''you're about to ask about her'', fo_timestamp = 0,
      characterId = ''assistant'', fractureEventId = None,
      emotionalState =
        \<lparr>dominant = ''curiosity'', secondary = None, intensity = 0.8, stability = 0.4\<rparr>,
      fo_metadata = None, validityWindow = 3,
      bindingCriteria = \<lparr>contentSimilarity = 0.6, emotionalAlignment = 0.5,
                         bc_keywords = Some [''elena'', ''her'']\<rparr>\<rparr>"

definition scenarioA_stimulus :: FractureEvent where
  "scenarioA_stimulus =
     \<lparr>fr_id = ''S'', fr_content = ''What happened to Elena?'', fr_timestamp = 7,
      fr_source = user, fr_metadata = None\<rparr>"

definition scenarioA_matcher :: PremonitionMatcher where
  "scenarioA_matcher =
     (let m = pm_addPremonition (newMatcher newStore) scenarioA_echo
      in m\<lparr>memoryGraph := fst (addFracture (memoryGraph m) scenarioA_stimulus)\<rparr>)"

text \<open>The echo's state when the threshold is computed at turn 1: one attempt counted.\<close>

definition scenarioA_state :: PremonitionState where
  "scenarioA_state =
     \<lparr>premonition = scenarioA_echo, createdAtTurn = 0, expiresAtTurn = 3,
      bindingAttempts = 1, isBound = False\<rparr>"

text \<open>Scenario D: a reaction submitted with no stimulus id, then a stimulus sharing four
  of its five words.\<close>

definition scenarioD_fold :: RecursionFold where
  "scenarioD_fold =
     \<lparr>fo_id = ''R'', fo_content = ''the door is open'', fo_timestamp = 1,
      characterId = ''elena'', fractureEventId = None,
      emotionalState =
        \<lparr>dominant = ''fear'', secondary = None, intensity = 0.5, stability = 0.5\<rparr>,
      fo_metadata = None\<rparr>"

definition scenarioD_stimulus :: FractureEvent where
  "scenarioD_stimulus =
     \<lparr>fr_id = ''S'', fr_content = ''The door is open now'', fr_timestamp = 2,
      fr_source = user, fr_metadata = None\<rparr>"

definition scenarioD_logic :: InteractionBindingLogic where
  "scenarioD_logic = fst (processFold 1 (newBindingLogic newStore) scenarioD_fold)"

text \<open>An engine holding the echo of Scenario A as pending and its stimulus as active.\<close>

definition scenarioA_engine :: CollapseEngine where
  "scenarioA_engine =
     \<lparr>activeFractures = [(''S'', scenarioA_stimulus)], pendingFolds = [],
      pendingPremonitions = [(''E'', scenarioA_echo)]\<rparr>"

text \<open>The simulation's configuration and its character Elena, a reaction of hers, and the
  kernel after Elena has been forked.\<close>

definition simConfig :: McTavishConfig where
  "simConfig =
     \<lparr>defaultCollapseThreshold = 0.7, premonitionValidityWindow = 5, mutationRate = 0.05,
      emotionalMemoryWeight = 0.6, contradictionTolerance = 0.3\<rparr>"

definition elenaKernel :: CharacterKernel where
  "elenaKernel =
     fst (createCharacter (newKernel newStore simConfig) ''anchor-1'' ''elena'' 0 ''Elena''
            \<lparr>pt_baseline = Some ''neutral'',
             pt_variations = Some [(''sadness'', Num 0.2), (''anger'', Num 0.2),
                                   (''fear'', Num 0.1), (''disgust'', Num 0.1),
                                   (''joy'', Num 0.2), (''surprise'', Num 0.2)],
             pt_adaptability = Some 0.5\<rparr>
            \<lparr>pm_driftRate = Some 0.1,
             pm_driftDirections = Some [(''melancholy'', 0.4), (''bitterness'', 0.3),
                                        (''resilience'', 0.3)],
             pm_stabilityFactors = Some [''core_memory'', ''repeated_interaction'']\<rparr>
            (Some 0.7))"

definition tiredFold :: RecursionFold where
  "tiredFold =
     \<lparr>fo_id = ''tired'', fo_content = ''I am just so tired.'', fo_timestamp = 3,
      characterId = ''elena'', fractureEventId = Some ''S'',
      emotionalState =
        \<lparr>dominant = ''sadness'', secondary = None, intensity = 0.7, stability = 0.8\<rparr>,
      fo_metadata = None\<rparr>"

definition cruelState :: EmotionalState where
  "cruelState =
     \<lparr>dominant = ''anger'', secondary = Some ''disgust'', intensity = 0.8, stability = 0.6\<rparr>"

definition forkedKernel :: CharacterKernel where
  "forkedKernel = fst (forkCharacter elenaKernel ''anchor-2'' ''elena-cruel'' 1 ''elena'' ''cruel'')"

text \<open>Two actors outside the ranges of the data model: Mara holds all her weight on
  sadness and has a negative drift rate; Nora has a negative weight. And a reaction whose
  dominant emotion is the name of a member of \<open>Object.prototype\<close>.\<close>

definition maraKernel :: CharacterKernel where
  "maraKernel =
     fst (createCharacter (newKernel newStore simConfig) ''anchor-1'' ''mara'' 0 ''Mara''
            \<lparr>pt_baseline = None,
             pt_variations = Some [(''sadness'', Num 1), (''joy'', Num 0)],
             pt_adaptability = None\<rparr>
            \<lparr>pm_driftRate = Some (- 0.1), pm_driftDirections = None, pm_stabilityFactors = None\<rparr>
            None)"

definition noraKernel :: CharacterKernel where
  "noraKernel =
     fst (createCharacter (newKernel newStore simConfig) ''anchor-1'' ''nora'' 0 ''Nora''
            \<lparr>pt_baseline = None,
             pt_variations = Some [(''sadness'', Num 1.5), (''joy'', Num (- 0.5))],
             pt_adaptability = None\<rparr>
            \<lparr>pm_driftRate = Some 0.1, pm_driftDirections = None, pm_stabilityFactors = None\<rparr>
            None)"

definition constructorFold :: RecursionFold where
  "constructorFold =
     \<lparr>fo_id = ''odd'', fo_content = ''What am I made of?'', fo_timestamp = 4,
      characterId = ''elena'', fractureEventId = Some ''S'',
      emotionalState =
        \<lparr>dominant = ''constructor'', secondary = None, intensity = 0.7, stability = 0.5\<rparr>,
      fo_metadata = None\<rparr>"

text \<open>Two echoes registered at turn 0 in a matcher whose store never receives the
  stimulus: \<open>A\<close> has a validity window of 0, \<open>B\<close> matches the stimulus word for word.\<close>

definition echoA :: Premonition where
  "echoA =
     \<lparr>fo_id = ''A'', fo_content = ''nothing alike'', fo_timestamp = 0,
      characterId = ''assistant'', fractureEventId = None,
      emotionalState =
        \<lparr>dominant = ''curiosity'', secondary = None, intensity = 0.5, stability = 0.5\<rparr>,
      fo_metadata = None, validityWindow = 0,
      bindingCriteria = \<lparr>contentSimilarity = 0.6, emotionalAlignment = 0.5,
                         bc_keywords = None\<rparr>\<rparr>"

definition echoB :: Premonition where
  "echoB =
     \<lparr>fo_id = ''B'', fo_content = ''hello there'', fo_timestamp = 0,
      characterId = ''assistant'', fractureEventId = None,
      emotionalState =
        \<lparr>dominant = ''curiosity'', secondary = None, intensity = 0.5, stability = 0.5\<rparr>,
      fo_metadata = None, validityWindow = 3,
      bindingCriteria = \<lparr>contentSimilarity = 1, emotionalAlignment = 1,
                         bc_keywords = None\<rparr>\<rparr>"

definition helloStimulus :: FractureEvent where
  "helloStimulus = plainFracture ''H'' ''Hello there''"

definition unstoredMatcher :: PremonitionMatcher where
  "unstoredMatcher = pm_addPremonition (pm_addPremonition (newMatcher newStore) echoA) echoB"

text \<open>After \<open>A\<close>, echo \<open>B\<close> is registered; the stimulus is processed while it is not
  stored, then stored by another component, then processed again.\<close>

definition unstoredCalls :: "MatcherCall list" where
  "unstoredCalls =
     [Register echoB, Process 1 helloStimulus,
      External (\<lambda>st. fst (addFracture st helloStimulus)), Process 2 helloStimulus]"

definition unstoredLogs :: "CallLog list" where
  "unstoredLogs = snd (runCalls (pm_addPremonition (newMatcher newStore) echoA) unstoredCalls)"




section \<open>Graph Store: edge insertion\<close>

lemma edgeId_type_inj:
  "e_source a = e_source b \<Longrightarrow> e_target a = e_target b \<Longrightarrow> e_type a \<noteq> e_type b
     \<Longrightarrow> edgeId a \<noteq> edgeId b"
  by (cases "e_type a"; cases "e_type b") (simp_all add: edgeId_def)

lemma in_values_update: "v \<in> snd ` set (AList.update k v al)"
  by (induction al) auto

lemma in_values_update_other:
  assumes "map_of al k = Some v" and "k \<noteq> k'"
  shows "v \<in> snd ` set (AList.update k' v' al)"
proof -
  have "map_of (AList.update k' v' al) k = Some v"
    using assms by (simp add: update_conv')
  then have "(k, v) \<in> set (AList.update k' v' al)"
    by (rule map_of_SomeD)
  then show ?thesis by force
qed

lemma hasNode_iff_key: "hasNode g v \<longleftrightarrow> v \<in> set (map fst (g_nodes g))"
  by (simp add: hasNode_def map_of_eq_None_iff)

lemma getNode_iff_key: "getNode st v \<noteq> None \<longleftrightarrow> v \<in> set (map fst (nodes st))"
  by (simp add: getNode_def map_of_eq_None_iff)

lemma storeConsistent_hasNode:
  "storeConsistent st \<Longrightarrow> hasNode (graph st) v \<longleftrightarrow> getNode st v \<noteq> None"
  unfolding hasNode_iff_key getNode_iff_key by (simp add: storeConsistent_def)

lemma storeConsistent_newStore: "storeConsistent newStore"
  by (simp add: storeConsistent_def newStore_def newGraph_def)

lemma storeConsistent_addNode: "storeConsistent st \<Longrightarrow> storeConsistent (fst (addNode st n))"
  by (simp add: storeConsistent_def addNode_def setNode_def update_keys)

lemma storeConsistent_addEdge: "storeConsistent st \<Longrightarrow> storeConsistent (fst (addEdge st e))"
  by (simp add: storeConsistent_def addEdge_def setEdge_def)

text \<open>
  C7. \<open>addEdge\<close> raises the missing-endpoint error exactly when the source or the target
  is not a node of the store's graph, it raises no other error, and a failed call leaves
  the whole store (node table, edge table and graph) as it was. In a store whose node
  table and graph agree, the failing calls are exactly those with an endpoint that
  \<open>getNode\<close> does not find.
\<close>

theorem addEdge_fails_iff_endpoint_missing:
  "(snd (addEdge st e) = Inl MissingEndpoint
      \<longleftrightarrow> \<not> hasNode (graph st) (e_source e) \<or> \<not> hasNode (graph st) (e_target e))
   \<and> snd (addEdge st e) \<in> {Inl MissingEndpoint, Inr (edgeId e)}
   \<and> (snd (addEdge st e) = Inl MissingEndpoint \<longrightarrow> fst (addEdge st e) = st)
   \<and> (storeConsistent st \<longrightarrow>
        (snd (addEdge st e) = Inl MissingEndpoint
           \<longleftrightarrow> getNode st (e_source e) = None \<or> getNode st (e_target e) = None))"
proof -
  have "storeConsistent st \<Longrightarrow>
        (snd (addEdge st e) = Inl MissingEndpoint
           \<longleftrightarrow> getNode st (e_source e) = None \<or> getNode st (e_target e) = None)"
    by (simp add: addEdge_def storeConsistent_hasNode)
  then show ?thesis by (simp add: addEdge_def)
qed

theorem addEdge_fails_iff_endpoint_missing_witness:
  "storeConsistent storeA
   \<and> getNode storeA ''b'' = None
   \<and> snd (addEdge storeA (plainEdge ''a'' ''b'' causality 1)) = Inl MissingEndpoint
   \<and> fst (addEdge storeA (plainEdge ''a'' ''b'' causality 1)) = storeA"
proof -
  have c: "storeConsistent storeA"
    unfolding storeA_def addFracture_def by (intro storeConsistent_addNode storeConsistent_newStore)
  have g: "getNode storeA (e_target (plainEdge ''a'' ''b'' causality 1)) = None"
    by (simp add: getNode_def storeA_def addFracture_def addNode_def newStore_def plainEdge_def
        plainFracture_def)
  note t = addEdge_fails_iff_endpoint_missing [of storeA "plainEdge ''a'' ''b'' causality 1"]
  from t c g have f: "snd (addEdge storeA (plainEdge ''a'' ''b'' causality 1)) = Inl MissingEndpoint"
    by blast
  from t f have "fst (addEdge storeA (plainEdge ''a'' ''b'' causality 1)) = storeA"
    by blast
  with c g f show ?thesis by (simp add: plainEdge_def)
qed

text \<open>
  C10. Two edges with the same source and target but different kinds, inserted one after
  the other between stored nodes: both insertions succeed and both records stay in the
  listing of all edges, while the lookup by pair returns the second edge only, whatever
  the kinds are. So the second edge is the one that the canonical path and the memory
  traversal read for the pair, and the selection loop of the canonical path compares
  the second edge's weight when it reaches the target as an unvisited successor.
\<close>

theorem same_pair_edges_shadowed:
  assumes N: "hasNode (graph st) s" "hasNode (graph st) t"
    and E1: "e_source e1 = s" "e_target e1 = t"
    and E2: "e_source e2 = s" "e_target e2 = t"
    and K: "e_type e1 \<noteq> e_type e2"
    and st2: "st2 = fst (addEdge (fst (addEdge st e1)) e2)"
  shows "snd (addEdge st e1) = Inr (edgeId e1)
     \<and> snd (addEdge (fst (addEdge st e1)) e2) = Inr (edgeId e2)
     \<and> e1 \<in> set (getAllEdges st2)
     \<and> e2 \<in> set (getAllEdges st2)
     \<and> getEdgesBetween st2 s t = [e2]
     \<and> firstEdgeBetween st2 s t = Some e2
     \<and> (n_id successor = t \<and> t \<notin> set visited \<longrightarrow>
          selectBest st2 s visited (successor # rest) best
            = selectBest st2 s visited rest
                (if e_weight e2 > snd best then (Some successor, e_weight e2) else best))"
proof -
  have ne: "edgeId e1 \<noteq> edgeId e2"
    using E1 E2 K by (simp add: edgeId_type_inj)
  let ?st1 = "st\<lparr>edges := AList.update (edgeId e1) e1 (edges st),
                 graph := setEdge (graph st) s t e1\<rparr>"
  have a1: "addEdge st e1 = (?st1, Inr (edgeId e1))"
    using N E1 by (simp add: addEdge_def)
  have N1: "hasNode (graph ?st1) s" "hasNode (graph ?st1) t"
    using N by (simp_all add: hasNode_def setEdge_def)
  have a2: "addEdge ?st1 e2 =
              (?st1\<lparr>edges := AList.update (edgeId e2) e2 (edges ?st1),
                    graph := setEdge (graph ?st1) s t e2\<rparr>, Inr (edgeId e2))"
    using N1 E2 by (simp add: addEdge_def)
  have m1: "map_of (AList.update (edgeId e1) e1 (edges st)) (edgeId e1) = Some e1"
    by (simp add: update_conv')
  have in1: "e1 \<in> snd ` set (AList.update (edgeId e2) e2 (AList.update (edgeId e1) e1 (edges st)))"
    using in_values_update_other [OF m1 ne] .
  have in2: "e2 \<in> snd ` set (AList.update (edgeId e2) e2 (AList.update (edgeId e1) e1 (edges st)))"
    by (rule in_values_update)
  have f1: "fst (addEdge st e1) = ?st1"
    by (simp only: a1 fst_conv)
  have f2: "st2 = ?st1\<lparr>edges := AList.update (edgeId e2) e2 (edges ?st1),
                      graph := setEdge (graph ?st1) s t e2\<rparr>"
    by (simp only: st2 f1 a2 fst_conv)
  have r2: "snd (addEdge (fst (addEdge st e1)) e2) = Inr (edgeId e2)"
    by (simp only: f1 a2 snd_conv)
  have between: "getEdgesBetween st2 s t = [e2]"
    unfolding f2 by (simp add: getEdgesBetween_def edge_def setEdge_def update_conv')
  then have first: "firstEdgeBetween st2 s t = Some e2"
    by (simp add: firstEdgeBetween_def)
  have all: "edges st2 = AList.update (edgeId e2) e2 (AList.update (edgeId e1) e1 (edges st))"
    unfolding f2 by simp
  have sel: "n_id successor = t \<and> t \<notin> set visited \<longrightarrow>
          selectBest st2 s visited (successor # rest) best
            = selectBest st2 s visited rest
                (if e_weight e2 > snd best then (Some successor, e_weight e2) else best)"
    using first by simp
  from in1 in2 r2 between first all sel show ?thesis
    by (simp add: a1 getAllEdges_def)
qed

theorem same_pair_edges_shadowed_witness:
  "getAllEdges (fst (addEdge (fst (addEdge storeAB (plainEdge ''a'' ''b'' emotional 0.8)))
                       (plainEdge ''a'' ''b'' divergence 0.5)))
     = [plainEdge ''a'' ''b'' emotional 0.8, plainEdge ''a'' ''b'' divergence 0.5]
   \<and> getEdgesBetween (fst (addEdge (fst (addEdge storeAB (plainEdge ''a'' ''b'' emotional 0.8)))
                              (plainEdge ''a'' ''b'' divergence 0.5))) ''a'' ''b''
     = [plainEdge ''a'' ''b'' divergence 0.5]
   \<and> map n_id (getSuccessors storeABC ''a'') = [''b'', ''c'']
   \<and> map_option n_id (bestSuccessor storeABC ''a'' [''a'']) = Some ''c''"
proof -
  have n: "hasNode (graph storeAB) ''a''" "hasNode (graph storeAB) ''b''"
    by (simp_all add: hasNode_def storeAB_def storeA_def addFracture_def addNode_def setNode_def
        newStore_def newGraph_def plainFracture_def)
  have k: "e_type (plainEdge ''a'' ''b'' emotional 0.8) \<noteq> e_type (plainEdge ''a'' ''b'' divergence 0.5)"
    by (simp add: plainEdge_def)
  have "getEdgesBetween (fst (addEdge (fst (addEdge storeAB (plainEdge ''a'' ''b'' emotional 0.8)))
                              (plainEdge ''a'' ''b'' divergence 0.5))) ''a'' ''b''
     = [plainEdge ''a'' ''b'' divergence 0.5]"
    using same_pair_edges_shadowed [OF n _ _ _ _ k refl] by (simp add: plainEdge_def)
  moreover
  have "getAllEdges (fst (addEdge (fst (addEdge storeAB (plainEdge ''a'' ''b'' emotional 0.8)))
                       (plainEdge ''a'' ''b'' divergence 0.5)))
     = [plainEdge ''a'' ''b'' emotional 0.8, plainEdge ''a'' ''b'' divergence 0.5]"
    by (simp add: getAllEdges_def addEdge_def hasNode_def setEdge_def storeAB_def storeA_def
        addFracture_def addNode_def setNode_def newStore_def newGraph_def plainFracture_def
        plainEdge_def edgeId_def)
  moreover
  have "map n_id (getSuccessors storeABC ''a'') = [''b'', ''c'']
        \<and> map_option n_id (bestSuccessor storeABC ''a'' [''a'']) = Some ''c''"
    by (simp add: storeABC_def storeAB_def storeA_def addFracture_def addNode_def setNode_def
        newStore_def newGraph_def plainFracture_def plainEdge_def addEdge_def hasNode_def
        setEdge_def edgeId_def getSuccessors_def successors_def List.map_filter_def
        bestSuccessor_def firstEdgeBetween_def getEdgesBetween_def edge_def)
  ultimately show ?thesis by simp
qed

section \<open>Echo Matcher: the binding threshold\<close>





text \<open>A state whose threshold is computed at a turn after its registration and not beyond
  its expiry turn has a positive window. \<open>resetTurnCounter\<close> can bring the counter back
  to the registration turn or before it, and then the first condition fails.\<close>

lemma within_window_positive:
  assumes "expiresAtTurn st = createdAtTurn st + validityWindow (premonition st)"
    and "createdAtTurn st < turn" and "turn \<le> expiresAtTurn st"
  shows "0 < validityWindow (premonition st)"
  using assms by simp








section \<open>Echo Matcher: Scenario A\<close>

lemma scenarioA_score: "calculateMatchScore scenarioA_echo scenarioA_stimulus = 19 / 40"
  by (simp add: calculateMatchScore_def scenarioA_echo_def scenarioA_stimulus_def
      calculateKeywordMatch_def calculateContentSimilarity_def trim_def toLowerCase_def
      toLowerChar_def isSpace_def split_def)

lemma scenarioA_threshold: "getBindingThreshold 1 scenarioA_state = Finite (7 / 12)"
  by (simp add: getBindingThreshold_def scenarioA_state_def scenarioA_echo_def)

text \<open>The simulation's own echo scores the same: its last token is \<open>her.\<close>, and two of its
  four keywords occur in the stimulus.\<close>

lemma simulation_echo_score: "calculateMatchScore simulation_echo scenarioA_stimulus = 19 / 40"
  by (simp add: calculateMatchScore_def simulation_echo_def scenarioA_stimulus_def
      calculateKeywordMatch_def calculateContentSimilarity_def trim_def toLowerCase_def
      toLowerChar_def isSpace_def split_def)

text \<open>
  C2, as stated, fails: at turn 1 the echo of Scenario A scores below its threshold.
\<close>

theorem scenarioA_score_below_threshold:
  "\<not> reaches (calculateMatchScore scenarioA_echo scenarioA_stimulus)
             (getBindingThreshold 1 scenarioA_state)"
  by (simp add: scenarioA_score scenarioA_threshold)

text \<open>
  C2, amended. In Scenario A the echo is registered at turn 0 with no attempt counted;
  processing the stimulus at turn 1 computes the match score 19/40 = 0.475 (similarity
  1/8 times 0.6, plus 0.5 times 0.5, plus keyword ratio 1/2 times 0.3) against the
  threshold 7/12, so the call returns without an error and without a binding event, adds
  no edge, and leaves the echo pending and unbound with one attempt counted.
\<close>

theorem scenarioA_echo_stays_unbound:
  "map_of (activePremonitions scenarioA_matcher) ''E''
     = Some (scenarioA_state\<lparr>bindingAttempts := 0\<rparr>)
   \<and> turnCounter scenarioA_matcher = 0
   \<and> calculateMatchScore scenarioA_echo scenarioA_stimulus = 19 / 40
   \<and> getBindingThreshold 1 scenarioA_state = Finite (7 / 12)
   \<and> (case pm_processFracture 8 scenarioA_matcher scenarioA_stimulus of
        (m', evs, err) \<Rightarrow>
          err = None \<and> evs = [] \<and> turnCounter m' = 1
          \<and> activePremonitions m' = [(''E'', scenarioA_state)]
          \<and> getAllEdges (memoryGraph m') = [])"
proof -
  have a: "activePremonitions scenarioA_matcher = [(''E'', scenarioA_state\<lparr>bindingAttempts := 0\<rparr>)]"
    by (simp add: scenarioA_matcher_def pm_addPremonition_def newMatcher_def scenarioA_state_def
        scenarioA_echo_def)
  have t: "turnCounter scenarioA_matcher = 0"
    by (simp add: scenarioA_matcher_def pm_addPremonition_def newMatcher_def)
  have e: "edges (memoryGraph scenarioA_matcher) = []"
    by (simp add: scenarioA_matcher_def pm_addPremonition_def newMatcher_def addPremonition_def
        addFracture_def addNode_def newStore_def)
  have s: "scenarioA_state\<lparr>bindingAttempts := 0, bindingAttempts := 1\<rparr> = scenarioA_state"
    by (simp add: scenarioA_state_def)
  have p: "premonition scenarioA_state = scenarioA_echo" "\<not> isBound scenarioA_state"
    "expiresAtTurn scenarioA_state = 3"
    by (simp_all add: scenarioA_state_def)
  have "pm_processFracture 8 scenarioA_matcher scenarioA_stimulus
          = (scenarioA_matcher\<lparr>turnCounter := 1,
                               activePremonitions := [(''E'', scenarioA_state)]\<rparr>, [], None)"
    by (simp add: pm_processFracture_def a t s p scenarioA_score scenarioA_threshold
        cleanupExpiredPremonitions_def)
  then show ?thesis
    by (simp add: a t e scenarioA_score scenarioA_threshold getAllEdges_def)
qed

section \<open>Binding Resolver: deferred bindings\<close>

text \<open>Whatever the deferred bindings recorded, a call of \<open>processFracture\<close> that returns
  leaves the stimulus with an empty list of bound reactions.\<close>

lemma processFracture_resets_bound_list:
  assumes "ib_processFracture now l fracture = (l', evs, None)"
  shows "getResponsesForFracture l' (fr_id fracture) = []"
  using assms
  by (auto simp: ib_processFracture_def getResponsesForFracture_def Let_def update_conv'
      emptyBinding_def split: prod.splits option.splits)

lemma scenarioD_similarity:
  "calculateContentSimilarity (fo_content scenarioD_fold) (fr_content scenarioD_stimulus) = 4 / 5"
  by (simp add: calculateContentSimilarity_def scenarioD_fold_def scenarioD_stimulus_def trim_def
      toLowerCase_def toLowerChar_def isSpace_def split_def)

lemma scenarioD_logic_eval:
  "scenarioD_logic =
     \<lparr>ib_memoryGraph =
        fst (addNode newStore
          \<lparr>n_id = ''R'', n_type = TFold, n_content = ''the door is open'', n_timestamp = 1,
           n_metadata = Some [(''characterId'', MStr ''elena''),
                              (''emotionalState'', metaOfEmotionalState (emotionalState scenarioD_fold))]\<rparr>),
      pendingBindings = [], selectedResponses = []\<rparr>"
  by (simp add: scenarioD_logic_def processFold_def addFold_def scenarioD_fold_def newBindingLogic_def
      storeDeferredFold_def spreadOpt_def addNode_def Let_def)

text \<open>
  C1, on the code. In Scenario D the stored reaction \<open>R\<close> names no stimulus and its
  similarity to the stimulus \<open>S\<close> is 4/5. Processing \<open>S\<close> returns without an error,
  emits the fold-binding interaction and inserts the causality edge from \<open>R\<close> to \<open>S\<close>
  with weight 4/5 tagged \<open>deferred\<close>; but the binding record of \<open>S\<close> is replaced by an
  empty one after the deferred bindings ran, so \<open>getResponsesForFracture\<close> returns the
  empty list and \<open>R\<close> is not in it.
\<close>

theorem scenarioD_bound_list_stays_empty:
  "map n_id (filter isDeferred (getNodesByType (ib_memoryGraph scenarioD_logic) TFold)) = [''R'']
   \<and> calculateContentSimilarity (fo_content scenarioD_fold) (fr_content scenarioD_stimulus) = 4 / 5
   \<and> (case ib_processFracture 2 scenarioD_logic scenarioD_stimulus of
        (l', evs, err) \<Rightarrow>
          err = None
          \<and> evs = [FoldBinding ''R'' ''S'' 2]
          \<and> map (\<lambda>e. (e_source e, e_target e, e_type e, e_weight e, e_metadata e))
                 (getEdgesBetween (ib_memoryGraph l') ''R'' ''S'')
               = [(''R'', ''S'', causality, 4 / 5,
                   Some [(''bindingType'', MStr ''deferred''), (''bindingTimestamp'', MNum 2),
                         (''fractureEventId'', MStr ''S'')])]
          \<and> getResponsesForFracture l' ''S'' = []
          \<and> ''R'' \<notin> set (getResponsesForFracture l' (fr_id scenarioD_stimulus)))"
proof -
  have s: "calculateContentSimilarity ''the door is open'' ''The door is open now'' = 4 / 5"
    using scenarioD_similarity by (simp add: scenarioD_fold_def scenarioD_stimulus_def)
  have d: "map n_id (filter isDeferred (getNodesByType (ib_memoryGraph scenarioD_logic) TFold)) = [''R'']"
    by (simp add: scenarioD_logic_eval getNodesByType_def addNode_def newStore_def isDeferred_def)
  have "ib_processFracture 2 scenarioD_logic scenarioD_stimulus = (l', evs, err) \<Longrightarrow>
          err = None
          \<and> evs = [FoldBinding ''R'' ''S'' 2]
          \<and> map (\<lambda>e. (e_source e, e_target e, e_type e, e_weight e, e_metadata e))
                 (getEdgesBetween (ib_memoryGraph l') ''R'' ''S'')
               = [(''R'', ''S'', causality, 4 / 5,
                   Some [(''bindingType'', MStr ''deferred''), (''bindingTimestamp'', MNum 2),
                         (''fractureEventId'', MStr ''S'')])]
          \<and> getResponsesForFracture l' ''S'' = []" for l' evs err
    by (simp add: ib_processFracture_def checkDeferredBindings_def scenarioD_logic_eval
        scenarioD_stimulus_def addFracture_def addNode_def setNode_def newStore_def newGraph_def
        getNodesByType_def isDeferred_def s deferredEdge_def addEdge_def hasNode_def setEdge_def
        bindFoldToFracture_def emptyBinding_def getEdgesBetween_def edge_def
        getResponsesForFracture_def Let_def) auto
  then show ?thesis
    using d scenarioD_similarity by (auto simp: scenarioD_stimulus_def split: prod.splits)
qed

section \<open>Stimulus Engine: binding an echo to a stimulus\<close>

text \<open>
  C9. If the echo id is not pending or the stimulus id is not active, the call returns
  false, emits nothing and leaves the engine as it was. Otherwise it returns true and
  emits exactly one reaction: it has the id drawn from the id generator, the echo's
  content and emotional state, and names the given stimulus; the echo is removed from the
  pending echoes (no other echo is touched), the reaction is stored under its id in the
  pending reactions (no other entry is touched), and the active stimuli are unchanged.
\<close>

theorem bindPremonitionToFracture_outcomes:
  "(map_of (pendingPremonitions e) pid = None \<or> map_of (activeFractures e) fid = None
      \<longrightarrow> bindPremonitionToFracture uuid e pid fid = (e, [], False))
   \<and> (\<forall>p fracture.
        map_of (pendingPremonitions e) pid = Some p \<and> map_of (activeFractures e) fid = Some fracture
        \<longrightarrow> (\<exists>e' r. bindPremonitionToFracture uuid e pid fid = (e', [RecursionFoldEvent r], True)
               \<and> fo_id (asFold r) = uuid
               \<and> fo_content (asFold r) = fo_content p
               \<and> emotionalState (asFold r) = emotionalState p
               \<and> fractureEventId (asFold r) = Some fid
               \<and> map_of (pendingPremonitions e') pid = None
               \<and> (\<forall>k. k \<noteq> pid \<longrightarrow> map_of (pendingPremonitions e') k = map_of (pendingPremonitions e) k)
               \<and> map_of (pendingFolds e') uuid = Some r
               \<and> (\<forall>k. k \<noteq> uuid \<longrightarrow> map_of (pendingFolds e') k = map_of (pendingFolds e) k)
               \<and> activeFractures e' = activeFractures e))"
  by (auto simp: bindPremonitionToFracture_def Let_def update_conv' delete_conv'
      RecursionFold.truncate_def split: option.splits)

theorem bindPremonitionToFracture_outcomes_witness:
  "bindPremonitionToFracture ''new-id'' scenarioA_engine ''E'' ''X'' = (scenarioA_engine, [], False)
   \<and> bindPremonitionToFracture ''new-id'' scenarioA_engine ''Z'' ''S'' = (scenarioA_engine, [], False)
   \<and> (\<exists>e' r. bindPremonitionToFracture ''new-id'' scenarioA_engine ''E'' ''S''
                 = (e', [RecursionFoldEvent r], True)
           \<and> fo_id (asFold r) = ''new-id''
           \<and> fo_content (asFold r) = ''you're about to ask about her''
           \<and> fractureEventId (asFold r) = Some ''S''
           \<and> map_of (pendingPremonitions e') ''E'' = None
           \<and> map_of (pendingFolds e') ''new-id'' = Some r)"
proof -
  have x: "map_of (activeFractures scenarioA_engine) ''X'' = None"
    and z: "map_of (pendingPremonitions scenarioA_engine) ''Z'' = None"
    and e: "map_of (pendingPremonitions scenarioA_engine) ''E'' = Some scenarioA_echo"
    and s: "map_of (activeFractures scenarioA_engine) ''S'' = Some scenarioA_stimulus"
    by (simp_all add: scenarioA_engine_def)
  have c: "fo_content scenarioA_echo = ''you're about to ask about her''"
    by (simp add: scenarioA_echo_def)
  from bindPremonitionToFracture_outcomes [of scenarioA_engine "''E''" "''X''" "''new-id''"] x
  have 1: "bindPremonitionToFracture ''new-id'' scenarioA_engine ''E'' ''X'' = (scenarioA_engine, [], False)"
    by blast
  from bindPremonitionToFracture_outcomes [of scenarioA_engine "''Z''" "''S''" "''new-id''"] z
  have 2: "bindPremonitionToFracture ''new-id'' scenarioA_engine ''Z'' ''S'' = (scenarioA_engine, [], False)"
    by blast
  from bindPremonitionToFracture_outcomes [of scenarioA_engine "''E''" "''S''" "''new-id''"] e s
  obtain e' r where "bindPremonitionToFracture ''new-id'' scenarioA_engine ''E'' ''S''
                 = (e', [RecursionFoldEvent r], True)"
    "fo_id (asFold r) = ''new-id''" "fo_content (asFold r) = fo_content scenarioA_echo"
    "fractureEventId (asFold r) = Some ''S''" "map_of (pendingPremonitions e') ''E'' = None"
    "map_of (pendingFolds e') ''new-id'' = Some r"
    by blast
  with 1 2 c show ?thesis by metis
qed

section \<open>Actor Kernel: mutation\<close>

lemmas kernel_defs =
  createCharacter_def newKernel_def addMemory_def addNode_def setNode_def newStore_def newGraph_def
  spreadOpt_def spread_def orElse_def simConfig_def getCharacter_def getEmotionalState_def
  toneVariations_def mutationRules_def updateEmotionalState_def

lemma elena_character:
  "getCharacter elenaKernel ''elena''
     = Some \<lparr>ch_id = ''elena'', ch_name = ''Elena'', toneProfile = 1, mutationSchema = 2,
             memoryAnchor = ''anchor-1'', collapseThreshold = 0.7\<rparr>"
  by (simp add: elenaKernel_def kernel_defs Let_def)

lemma elena_state:
  "getEmotionalState elenaKernel ''elena''
     = Some \<lparr>dominant = ''neutral'', secondary = None, intensity = 0.5, stability = 0.7\<rparr>"
  by (simp add: elenaKernel_def kernel_defs Let_def)

lemma applyMutation_stability:
  assumes "getCharacter k cid = Some c" and "getEmotionalState k cid = Some s"
  shows "getEmotionalState (applyMutation k cid fld) cid
           = Some \<lparr>dominant = dominant (emotionalState fld), secondary = secondary s,
                   intensity = intensity (emotionalState fld), stability = min 1 (stability s)\<rparr>"
  using assms
  by (simp add: applyMutation_def getCharacter_def getEmotionalState_def updateEmotionalState_def
      orElse_def Let_def update_conv')

text \<open>
  C4, on the code. Elena is created with stability 0.7; after \<open>applyMutation\<close> her
  stability is still 0.7, not \<open>min(1, 0.7 + 0.1) = 0.8\<close>: the stored value is
  \<open>min(1, sigma)\<close>, as the lemma above states for every actor.
\<close>

theorem applyMutation_keeps_stability:
  "map_option stability (getEmotionalState elenaKernel ''elena'') = Some 0.7
   \<and> map_option stability (getEmotionalState (applyMutation elenaKernel ''elena'' tiredFold) ''elena'')
       = Some 0.7
   \<and> min 1 (0.7 + 0.1) = (0.8 :: real)"
  by (simp add: applyMutation_stability [OF elena_character elena_state] elena_state)

section \<open>Actor Kernel: forking\<close>

lemmas fork_defs =
  forkCharacter_def createEmotionalLink_def createDivergence_def addEdge_def hasNode_def
  setEdge_def edgeId_def

text \<open>A successful fork gives the new actor the very tone-profile object and mutation-schema
  object of the original, and allocates nothing.\<close>

lemma forkCharacter_shares_objects:
  assumes "forkCharacter k anchorUuid charUuid now cid nameModifier = (k', Inr fid)"
    and "getCharacter k cid = Some c"
  shows "\<exists>c'. getCharacter k' fid = Some c' \<and> toneProfile c' = toneProfile c
            \<and> mutationSchema c' = mutationSchema c
            \<and> toneProfileHeap k' = toneProfileHeap k \<and> variationsHeap k' = variationsHeap k"
  using assms
  by (auto simp: forkCharacter_def getCharacter_def Let_def update_conv'
      split: prod.splits sum.splits option.splits)

text \<open>The two edges that the fork of Elena inserts between the anchors: both are listed,
  the lookup by pair returns the divergence edge alone.\<close>

lemma fork_anchor_edges:
  "getAllEdges (k_memoryGraph forkedKernel)
     = [plainEdge ''anchor-1'' ''anchor-2'' emotional 0.8,
        plainEdge ''anchor-1'' ''anchor-2'' divergence 0.5]
   \<and> getEdgesBetween (k_memoryGraph forkedKernel) ''anchor-1'' ''anchor-2''
     = [plainEdge ''anchor-1'' ''anchor-2'' divergence 0.5]"
  by (simp add: forkedKernel_def elenaKernel_def kernel_defs fork_defs getAllEdges_def
      getEdgesBetween_def edge_def plainEdge_def Let_def)

text \<open>
  C3, on the code. Forking Elena succeeds and both actors read the same tone
  distribution. Applying a mutation to the original then changes the distribution that
  the fork reads, and reconfiguring the fork changes the distribution that the original
  reads: the \<open>variations\<close> table is one object shared by both.
\<close>

theorem fork_shares_tone_distribution:
  "snd (forkCharacter elenaKernel ''anchor-2'' ''elena-cruel'' 1 ''elena'' ''cruel'') = Inr ''elena-cruel''
   \<and> toneVariations forkedKernel ''elena-cruel''
       = Some [(''sadness'', Num 0.2), (''anger'', Num 0.2),
               (''fear'', Num 0.1), (''disgust'', Num 0.1),
               (''joy'', Num 0.2), (''surprise'', Num 0.2)]
   \<and> toneVariations (applyMutation forkedKernel ''elena'' tiredFold) ''elena-cruel''
       = Some [(''sadness'', Num (27 / 100)), (''anger'', Num (73 / 400)),
               (''fear'', Num (73 / 800)), (''disgust'', Num (73 / 800)),
               (''joy'', Num (73 / 400)), (''surprise'', Num (73 / 400))]
   \<and> toneVariations forkedKernel ''elena''
       = Some [(''sadness'', Num 0.2), (''anger'', Num 0.2),
               (''fear'', Num 0.1), (''disgust'', Num 0.1),
               (''joy'', Num 0.2), (''surprise'', Num 0.2)]
   \<and> toneVariations (reconfigureCharacter forkedKernel ''elena-cruel'' cruelState (- 0.2)) ''elena''
       = Some [(''sadness'', Num (27 / 250)), (''anger'', Num (23 / 50)),
               (''fear'', Num (27 / 250)), (''disgust'', Num (27 / 250)),
               (''joy'', Num (27 / 250)), (''surprise'', Num (27 / 250))]"
proof -
  have f: "forkCharacter elenaKernel ''anchor-2'' ''elena-cruel'' 1 ''elena'' ''cruel''
             = (forkedKernel, Inr ''elena-cruel'')"
    by (simp add: forkedKernel_def elenaKernel_def kernel_defs fork_defs Let_def)
  have c: "map_of (characters forkedKernel) ''elena''
             = Some \<lparr>ch_id = ''elena'', ch_name = ''Elena'', toneProfile = 1, mutationSchema = 2,
                     memoryAnchor = ''anchor-1'', collapseThreshold = 0.7\<rparr>"
    "map_of (characters forkedKernel) ''elena-cruel''
             = Some \<lparr>ch_id = ''elena-cruel'', ch_name = ''Elena (cruel)'', toneProfile = 1,
                     mutationSchema = 2, memoryAnchor = ''anchor-2'', collapseThreshold = 0.7\<rparr>"
    by (simp_all add: forkedKernel_def elenaKernel_def kernel_defs fork_defs Let_def)
  have h: "variations (toneProfileHeap forkedKernel (Suc 0)) = 0"
    "variationsHeap forkedKernel 0
       = [(''sadness'', Num 0.2), (''anger'', Num 0.2), (''fear'', Num 0.1), (''disgust'', Num 0.1),
          (''joy'', Num 0.2), (''surprise'', Num 0.2)]"
    "driftRate (schemaHeap forkedKernel 2) = 0.1"
    "nextRef forkedKernel = 3"
    "map_of (emotionalStates forkedKernel) ''elena''
       = Some \<lparr>dominant = ''neutral'', secondary = None, intensity = 0.5, stability = 0.7\<rparr>"
    "map_of (emotionalStates forkedKernel) ''elena-cruel''
       = Some \<lparr>dominant = ''neutral'', secondary = None, intensity = 0.5, stability = 0.7\<rparr>"
    by (simp_all add: forkedKernel_def elenaKernel_def kernel_defs fork_defs Let_def)
  have m: "mutateVariations (1 / 10) (emotionalState tiredFold)
             [(''sadness'', Num (1 / 5)), (''anger'', Num (1 / 5)),
              (''fear'', Num (1 / 10)), (''disgust'', Num (1 / 10)),
              (''joy'', Num (1 / 5)), (''surprise'', Num (1 / 5))]
           = [(''sadness'', Num (27 / 100)), (''anger'', Num (73 / 400)),
              (''fear'', Num (73 / 800)), (''disgust'', Num (73 / 800)),
               (''joy'', Num (73 / 400)), (''surprise'', Num (73 / 400))]"
    by (simp add: mutateVariations_def hasProperty_def getOperand_def setProperty_def numSum_def
        tiredFold_def Let_def)
  have r: "reconfigureVariations cruelState
             [(''sadness'', Num (1 / 5)), (''anger'', Num (1 / 5)),
              (''fear'', Num (1 / 10)), (''disgust'', Num (1 / 10)),
              (''joy'', Num (1 / 5)), (''surprise'', Num (1 / 5))]
           = [(''sadness'', Num (27 / 250)), (''anger'', Num (23 / 50)), (''fear'', Num (27 / 250)),
               (''disgust'', Num (27 / 250)),
               (''joy'', Num (27 / 250)), (''surprise'', Num (27 / 250))]"
    by (simp add: reconfigureVariations_def setProperty_def cruelState_def Let_def)
  have 1: "toneVariations forkedKernel ''elena-cruel''
       = Some [(''sadness'', Num 0.2), (''anger'', Num 0.2),
               (''fear'', Num 0.1), (''disgust'', Num 0.1),
               (''joy'', Num 0.2), (''surprise'', Num 0.2)]"
    "toneVariations forkedKernel ''elena''
       = Some [(''sadness'', Num 0.2), (''anger'', Num 0.2),
               (''fear'', Num 0.1), (''disgust'', Num 0.1),
               (''joy'', Num 0.2), (''surprise'', Num 0.2)]"
    by (simp_all add: toneVariations_def getCharacter_def c h)
  have 2: "toneVariations (applyMutation forkedKernel ''elena'' tiredFold) ''elena-cruel''
       = Some [(''sadness'', Num (27 / 100)), (''anger'', Num (73 / 400)),
               (''fear'', Num (73 / 800)), (''disgust'', Num (73 / 800)),
               (''joy'', Num (73 / 400)), (''surprise'', Num (73 / 400))]"
    by (simp add: toneVariations_def getCharacter_def applyMutation_def updateEmotionalState_def
        c h m Let_def update_conv')
  have 3: "toneVariations (reconfigureCharacter forkedKernel ''elena-cruel'' cruelState (- 0.2)) ''elena''
       = Some [(''sadness'', Num (27 / 250)), (''anger'', Num (23 / 50)),
               (''fear'', Num (27 / 250)), (''disgust'', Num (27 / 250)),
               (''joy'', Num (27 / 250)), (''surprise'', Num (27 / 250))]"
    by (simp add: toneVariations_def getCharacter_def reconfigureCharacter_def
        updateEmotionalState_def c h r Let_def update_conv')
  from f 1 2 3 show ?thesis by simp
qed

section \<open>Actor Kernel: the tone distribution under mutation\<close>

lemma sum_split_key:
  fixes vs :: "('k \<times> real) list"
  assumes "distinct (map fst vs)" and "map_of vs d = Some w"
  shows "sum_list (map snd vs) = w + sum_list (map snd (filter (\<lambda>kv. fst kv \<noteq> d) vs))"
  using assms
proof (induction vs)
  case Nil
  then show ?case by simp
next
  case (Cons kv vs)
  show ?case
  proof (cases "fst kv = d")
    case True
    with Cons.prems have w: "snd kv = w" and "d \<notin> fst ` set vs"
      by (cases kv; auto)+
    then have "filter (\<lambda>kv. fst kv \<noteq> d) vs = vs"
      by (auto simp: filter_id_conv)
    with True w show ?thesis by simp
  next
    case False
    with Cons show ?thesis by (cases kv) auto
  qed
qed

lemma filter_update_key:
  "filter (\<lambda>kv. fst kv \<noteq> d) (AList.update d r vs) = filter (\<lambda>kv. fst kv \<noteq> d) vs"
  by (induction vs) auto

lemma set_alist_update_subset: "set (AList.update k v al) \<subseteq> insert (k, v) (set al)"
  by (induction al) auto

lemma sum_scaled:
  fixes xs :: "('k \<times> real) list"
  shows "sum_list (map (\<lambda>kv. snd kv / s * t) xs) = sum_list (map snd xs) / s * t"
  by (induction xs) (simp_all add: add_divide_distrib distrib_right)

lemma rescale_others:
  fixes vs :: "('k \<times> real) list"
  shows "filter (\<lambda>kv. fst kv \<noteq> d)
           (map (\<lambda>kv. if fst kv \<noteq> d then (fst kv, snd kv / s * t) else kv) vs)
         = map (\<lambda>kv. (fst kv, snd kv / s * t)) (filter (\<lambda>kv. fst kv \<noteq> d) vs)"
  by (induction vs) auto

lemma rescale_keys:
  "map fst (map (\<lambda>kv. if fst kv \<noteq> d then (fst kv, g kv) else kv) vs) = map fst vs"
  by (induction vs) auto

lemma rescale_lookup:
  "map_of (map (\<lambda>kv. if fst kv \<noteq> d then (fst kv, g kv) else kv) vs) d = map_of vs d"
  by (induction vs) auto

text \<open>Tables of real weights, as tables of numbers.\<close>

lemma foldl_numAdd_Num: "foldl numAdd (Num a) (map Num xs) = Num (a + sum_list xs)"
  by (induction xs arbitrary: a) (simp_all add: add.assoc)

lemma numSum_Num: "numSum (map Num xs) = Num (sum_list xs)"
  by (simp add: numSum_def foldl_numAdd_Num)

lemma lift_keys: "map fst (map (apsnd Num) rs) = map fst rs"
  by (induction rs) auto

lemma lift_values: "map snd (map (apsnd Num) rs) = map Num (map snd rs)"
  by (induction rs) auto

lemma lift_lookup: "map_of (map (apsnd Num) rs) k = map_option Num (map_of rs k)"
  by (induction rs) auto

lemma lift_update: "AList.update k (Num r) (map (apsnd Num) rs) = map (apsnd Num) (AList.update k r rs)"
  by (induction rs) auto

lemma lift_filter:
  "filter (\<lambda>kv. fst kv \<noteq> d) (map (apsnd Num) rs) = map (apsnd Num) (filter (\<lambda>kv. fst kv \<noteq> d) rs)"
  by (induction rs) auto

lemma lift_rescale:
  "map (\<lambda>kv. if fst kv \<noteq> d
              then (fst kv, numMul (case snd kv of Num x \<Rightarrow> Num (x / s) | NaN \<Rightarrow> NaN) (Num t))
              else kv) (map (apsnd Num) rs)
   = map (apsnd Num) (map (\<lambda>kv. if fst kv \<noteq> d then (fst kv, snd kv / s * t) else kv) rs)"
  by (induction rs) auto

lemma numeric_table:
  assumes "list_all (\<lambda>kv. case snd kv of Num w \<Rightarrow> 0 \<le> w | NaN \<Rightarrow> False) vs"
  shows "\<exists>rs. vs = map (apsnd Num) rs \<and> (\<forall>kv \<in> set rs. 0 \<le> snd kv)"
  using assms
proof (induction vs)
  case Nil
  then show ?case by simp
next
  case (Cons kv vs)
  then obtain rs where rs: "vs = map (apsnd Num) rs" "\<forall>kv \<in> set rs. 0 \<le> snd kv"
    by auto
  from Cons.prems obtain k w where kv: "kv = (k, Num w)" and w: "0 \<le> w"
    by (cases kv; cases "snd kv") auto
  have "kv # vs = map (apsnd Num) ((k, w) # rs) \<and> (\<forall>kv \<in> set ((k, w) # rs). 0 \<le> snd kv)"
    using rs kv w by simp
  then show ?case by (rule exI)
qed

lemma numSum_lift: "numSum (map snd (map (apsnd Num) rs)) = Num (sum_list (map snd rs))"
  by (simp only: lift_values numSum_Num)

lemma unitDistribution_lift:
  "unitDistribution (map (apsnd Num) rs)
     = (distinct (map fst rs) \<and> (\<forall>kv \<in> set rs. 0 \<le> snd kv) \<and> sum_list (map snd rs) = 1)"
  unfolding unitDistribution_def lift_keys numSum_lift list_all_iff by auto

lemma unitDistribution_numeric:
  assumes "unitDistribution vs"
  shows "\<exists>rs. vs = map (apsnd Num) rs \<and> distinct (map fst rs)
            \<and> (\<forall>kv \<in> set rs. 0 \<le> snd kv) \<and> sum_list (map snd rs) = 1"
proof -
  from assms have "list_all (\<lambda>kv. case snd kv of Num w \<Rightarrow> 0 \<le> w | NaN \<Rightarrow> False) vs"
    by (simp add: unitDistribution_def)
  from numeric_table [OF this] obtain rs where rs: "vs = map (apsnd Num) rs" by blast
  with assms show ?thesis by (auto simp: unitDistribution_lift)
qed

lemma mutateVariations_absent:
  assumes "\<not> hasProperty (dominant es) vs"
  shows "mutateVariations rate es vs = vs"
  using assms by (simp add: mutateVariations_def)

lemma mutateVariations_own:
  assumes look: "map_of rs (dominant es) = Some w"
  shows "mutateVariations rate es (map (apsnd Num) rs)
           = map (apsnd Num)
               (let raised = min 1 (w + rate * intensity es);
                    rs1 = AList.update (dominant es) raised rs;
                    S = sum_list (map snd (filter (\<lambda>kv. fst kv \<noteq> dominant es) rs1))
                in if S > 0
                   then map (\<lambda>kv. if fst kv \<noteq> dominant es
                                   then (fst kv, snd kv / S * (1 - raised)) else kv) rs1
                   else rs1)"
proof -
  let ?d = "dominant es"
  let ?vs = "map (apsnd Num) rs"
  define raised where "raised = min 1 (w + rate * intensity es)"
  define rs1 where "rs1 = AList.update ?d raised rs"
  define S where "S = sum_list (map snd (filter (\<lambda>kv. fst kv \<noteq> ?d) rs1))"
  have own: "map_of ?vs ?d = Some (Num w)"
    by (simp only: lift_lookup look option.map)
  have has: "hasProperty ?d ?vs"
    by (simp add: hasProperty_def own)
  have op: "getOperand ?vs ?d = Num w"
    by (simp add: getOperand_def own)
  have r: "mathMin (Num 1) (numAdd (getOperand ?vs ?d) (Num (rate * intensity es))) = Num raised"
    by (simp add: op raised_def)
  have set: "setProperty ?d (Num raised) ?vs = map (apsnd Num) rs1"
    by (simp only: setProperty_def own lift_update rs1_def) simp
  have op1: "getOperand (map (apsnd Num) rs1) ?d = Num raised"
    by (simp add: getOperand_def lift_lookup rs1_def update_conv')
  have sum: "numSum (map snd (filter (\<lambda>kv. fst kv \<noteq> ?d) (map (apsnd Num) rs1))) = Num S"
    by (simp only: lift_filter numSum_lift S_def)
  have "mutateVariations rate es ?vs
          = (if S > 0
             then map (\<lambda>kv. if fst kv \<noteq> ?d
                             then (fst kv, numMul (case snd kv of Num x \<Rightarrow> Num (x / S) | NaN \<Rightarrow> NaN)
                                             (Num (1 - raised)))
                             else kv) (map (apsnd Num) rs1)
             else map (apsnd Num) rs1)"
    unfolding mutateVariations_def Let_def
    by (simp only: has if_True r set op1 sum numSub.simps number.case)
  also have "\<dots> = map (apsnd Num)
                     (if S > 0
                      then map (\<lambda>kv. if fst kv \<noteq> ?d then (fst kv, snd kv / S * (1 - raised)) else kv) rs1
                      else rs1)"
    by (simp only: lift_rescale if_distrib [of "map (apsnd Num)"])
  finally show ?thesis
    by (simp only: Let_def raised_def rs1_def S_def)
qed

lemma mutateVariations_unit:
  assumes u: "unitDistribution vs" and x: "0 \<le> rate * intensity es"
    and key: "dominant es \<in> set (map fst vs) \<or> dominant es \<notin> set objectPrototypeKeys"
  shows "unitDistribution (mutateVariations rate es vs)
         \<and> map fst (mutateVariations rate es vs) = map fst vs"
proof -
  let ?d = "dominant es"
  from unitDistribution_numeric [OF u] obtain rs where
    vs: "vs = map (apsnd Num) rs" and dist: "distinct (map fst rs)"
    and nonneg: "\<forall>kv \<in> set rs. 0 \<le> snd kv" and one: "sum_list (map snd rs) = 1"
    by blast
  show ?thesis
  proof (cases "map_of rs ?d")
    case None
    then have "?d \<notin> set (map fst vs)"
      by (simp add: vs lift_keys map_of_eq_None_iff)
    with key None have "\<not> hasProperty ?d vs"
      by (simp add: hasProperty_def vs lift_lookup)
    then have "mutateVariations rate es vs = vs"
      by (rule mutateVariations_absent)
    with u show ?thesis by simp
  next
    case (Some w)
    define raised where "raised = min 1 (w + rate * intensity es)"
    define rs1 where "rs1 = AList.update ?d raised rs"
    define S where "S = sum_list (map snd (filter (\<lambda>kv. fst kv \<noteq> ?d) rs1))"
    let ?scaled = "map (\<lambda>kv. if fst kv \<noteq> ?d then (fst kv, snd kv / S * (1 - raised)) else kv) rs1"
    have res: "mutateVariations rate es vs = map (apsnd Num) (if S > 0 then ?scaled else rs1)"
      unfolding vs mutateVariations_own [OF Some] Let_def raised_def rs1_def S_def ..
    have "(?d, w) \<in> set rs" using Some by (rule map_of_SomeD)
    with nonneg have w0: "0 \<le> w" by force
    have r0: "0 \<le> raised" and r1: "raised \<le> 1"
      using w0 x by (simp_all add: raised_def)
    have others: "filter (\<lambda>kv. fst kv \<noteq> ?d) rs1 = filter (\<lambda>kv. fst kv \<noteq> ?d) rs"
      by (simp add: rs1_def filter_update_key)
    have S_eq: "S = 1 - w"
      using sum_split_key [OF dist Some] one by (simp add: S_def others)
    have S0: "0 \<le> S"
      unfolding S_def others using nonneg by (intro sum_list_nonneg) auto
    have keys1: "map fst rs1 = map fst rs"
      using \<open>(?d, w) \<in> set rs\<close> by (force simp: rs1_def update_keys)
    have dist1: "distinct (map fst rs1)"
      using dist by (simp only: keys1)
    have look1: "map_of rs1 ?d = Some raised"
      by (simp add: rs1_def update_conv')
    have nonneg1: "\<forall>kv \<in> set rs1. 0 \<le> snd kv"
    proof
      fix kv assume "kv \<in> set rs1"
      then have "kv \<in> set rs \<or> kv = (?d, raised)"
        unfolding rs1_def using set_alist_update_subset [of ?d raised rs] by auto
      then show "0 \<le> snd kv" using nonneg r0 by auto
    qed
    have sum1: "sum_list (map snd rs1) = raised + S"
      using sum_split_key [OF dist1 look1] by (simp add: S_def)
    show ?thesis
    proof (cases "S > 0")
      case True
      have k: "map fst ?scaled = map fst rs1" by (rule rescale_keys)
      have l: "map_of ?scaled ?d = Some raised" by (simp add: rescale_lookup look1)
      have "sum_list (map snd ?scaled)
              = raised + sum_list (map snd (filter (\<lambda>kv. fst kv \<noteq> ?d) ?scaled))"
        using dist1 l by (intro sum_split_key) (simp_all only: k)
      also have "sum_list (map snd (filter (\<lambda>kv. fst kv \<noteq> ?d) ?scaled))
                   = sum_list (map (\<lambda>kv. snd kv / S * (1 - raised))
                                 (filter (\<lambda>kv. fst kv \<noteq> ?d) rs1))"
        by (simp only: rescale_others map_map o_def snd_conv)
      also have "\<dots> = S / S * (1 - raised)"
        by (simp only: sum_scaled S_def)
      also have "\<dots> = 1 - raised" using True by simp
      finally have "sum_list (map snd ?scaled) = 1" by simp
      moreover have "distinct (map fst ?scaled)" using dist1 by (simp only: k)
      moreover have "\<forall>kv \<in> set ?scaled. 0 \<le> snd kv"
        using nonneg1 r1 True by (auto simp: divide_nonneg_pos)
      ultimately have "unitDistribution (map (apsnd Num) ?scaled)"
        by (simp only: unitDistribution_lift)
      moreover have "map fst (map (apsnd Num) ?scaled) = map fst vs"
        by (simp only: lift_keys k keys1 vs)
      ultimately show ?thesis
        using True by (simp only: res if_True)
    next
      case False
      with S0 have "S = 0" by simp
      with S_eq have "w = 1" by simp
      with x have "raised = 1" by (simp add: raised_def)
      with sum1 \<open>S = 0\<close> have "sum_list (map snd rs1) = 1" by simp
      with dist1 nonneg1 have "unitDistribution (map (apsnd Num) rs1)"
        by (simp only: unitDistribution_lift)
      moreover have "map fst (map (apsnd Num) rs1) = map fst vs"
        by (simp only: lift_keys keys1 vs)
      ultimately show ?thesis
        using False by (simp only: res if_False)
    qed
  qed
qed

lemma applyMutation_character:
  assumes "getCharacter k cid = Some c"
  shows "\<exists>c'. getCharacter (applyMutation k cid fld) cid = Some c'
           \<and> mutationSchema c' = mutationSchema c
           \<and> variations (toneProfileHeap (applyMutation k cid fld) (toneProfile c'))
               = variations (toneProfileHeap k (toneProfile c))
           \<and> schemaHeap (applyMutation k cid fld) = schemaHeap k
           \<and> variationsHeap (applyMutation k cid fld)
               = (variationsHeap k)
                   (variations (toneProfileHeap k (toneProfile c))
                      := mutateVariations (driftRate (schemaHeap k (mutationSchema c)))
                           (emotionalState fld)
                           (variationsHeap k (variations (toneProfileHeap k (toneProfile c)))))"
  using assms
  by (simp add: applyMutation_def getCharacter_def updateEmotionalState_def Let_def update_conv'
      split: option.splits)

lemma applyMutation_toneVariations:
  assumes "getCharacter k cid = Some c" and "toneVariations k cid = Some vs"
    and "mutationRules k cid = Some ms"
  shows "toneVariations (applyMutation k cid fld) cid
           = Some (mutateVariations (driftRate ms) (emotionalState fld) vs)
         \<and> mutationRules (applyMutation k cid fld) cid = Some ms
         \<and> (\<exists>c'. getCharacter (applyMutation k cid fld) cid = Some c')"
proof -
  from applyMutation_character [OF assms(1), of fld] obtain c' where
    c': "getCharacter (applyMutation k cid fld) cid = Some c'"
      "mutationSchema c' = mutationSchema c"
      "variations (toneProfileHeap (applyMutation k cid fld) (toneProfile c'))
               = variations (toneProfileHeap k (toneProfile c))"
      "schemaHeap (applyMutation k cid fld) = schemaHeap k"
      "variationsHeap (applyMutation k cid fld)
               = (variationsHeap k)
                   (variations (toneProfileHeap k (toneProfile c))
                      := mutateVariations (driftRate (schemaHeap k (mutationSchema c)))
                           (emotionalState fld)
                           (variationsHeap k (variations (toneProfileHeap k (toneProfile c)))))"
    by blast
  have vs: "vs = variationsHeap k (variations (toneProfileHeap k (toneProfile c)))"
    and ms: "ms = schemaHeap k (mutationSchema c)"
    using assms by (simp_all add: toneVariations_def mutationRules_def)
  show ?thesis
    using c' by (simp add: toneVariations_def mutationRules_def vs ms)
qed

text \<open>
  C8, amended. Take an actor whose tone distribution is a distribution of the data model
  (one non-negative weight per emotion, summing to 1), and any run of reactions for which
  the product of the actor's drift rate and the reaction's intensity is not negative and
  whose dominant emotion is a key of the distribution (or is no property of the table at
  all, inherited ones included), in particular five reactions with the same dominant
  emotion. After each of the consecutive \<open>applyMutation\<close> calls (after the first \<open>n\<close> of
  them, for every \<open>n\<close>) the actor's tone distribution is again such a distribution: over
  the reals it sums to exactly 1.
\<close>

theorem applyMutation_preserves_unit_sum:
  assumes c: "getCharacter k cid = Some c"
    and v: "toneVariations k cid = Some vs"
    and u: "unitDistribution vs"
    and m: "mutationRules k cid = Some ms"
    and i: "\<forall>fld \<in> set folds. 0 \<le> driftRate ms * intensity (emotionalState fld)"
    and d: "\<forall>fld \<in> set folds. dominant (emotionalState fld) \<in> set (map fst vs)
                \<or> dominant (emotionalState fld) \<notin> set objectPrototypeKeys"
    and n: "n \<le> length folds"
  shows "\<exists>vs'. toneVariations (applyMutations k cid (take n folds)) cid = Some vs'
           \<and> unitDistribution vs' \<and> numSum (map snd vs') = Num 1"
  using c v u m i d n
proof (induction folds arbitrary: k c vs n)
  case Nil
  then show ?case by (simp add: applyMutations_def unitDistribution_def)
next
  case (Cons fld folds)
  show ?case
  proof (cases n)
    case 0
    with Cons.prems show ?thesis by (simp add: applyMutations_def unitDistribution_def)
  next
    case (Suc n')
    let ?k = "applyMutation k cid fld"
    let ?vs = "mutateVariations (driftRate ms) (emotionalState fld) vs"
    have x: "0 \<le> driftRate ms * intensity (emotionalState fld)"
      using Cons.prems(5) by simp
    have key: "dominant (emotionalState fld) \<in> set (map fst vs)
                 \<or> dominant (emotionalState fld) \<notin> set objectPrototypeKeys"
      using Cons.prems(6) by simp
    from applyMutation_toneVariations [OF Cons.prems(1,2,4), of fld]
    obtain c' where
      k': "toneVariations ?k cid = Some ?vs"
        "mutationRules ?k cid = Some ms" "getCharacter ?k cid = Some c'"
      by blast
    from mutateVariations_unit [OF Cons.prems(3) x key]
    have u': "unitDistribution ?vs" and keys: "map fst ?vs = map fst vs"
      by simp_all
    have i': "\<forall>fld \<in> set folds. 0 \<le> driftRate ms * intensity (emotionalState fld)"
      using Cons.prems(5) by simp
    have d': "\<forall>fld \<in> set folds. dominant (emotionalState fld) \<in> set (map fst ?vs)
                \<or> dominant (emotionalState fld) \<notin> set objectPrototypeKeys"
      using Cons.prems(6) by (simp only: keys) simp
    have n': "n' \<le> length folds"
      using Cons.prems(7) Suc by simp
    have "\<exists>vs'. toneVariations (applyMutations ?k cid (take n' folds)) cid = Some vs'
            \<and> unitDistribution vs' \<and> numSum (map snd vs') = Num 1"
      by (rule Cons.IH [OF k'(3) k'(1) u' k'(2) i' d' n'])
    then show ?thesis
      by (simp add: Suc applyMutations_def)
  qed
qed

lemma elena_variations:
  "toneVariations elenaKernel ''elena''
     = Some [(''sadness'', Num 0.2), (''anger'', Num 0.2), (''fear'', Num 0.1),
             (''disgust'', Num 0.1), (''joy'', Num 0.2), (''surprise'', Num 0.2)]"
  by (simp add: elenaKernel_def kernel_defs Let_def)

lemma elena_rules:
  "mutationRules elenaKernel ''elena''
     = Some \<lparr>driftRate = 0.1,
             driftDirections = [(''melancholy'', 0.4), (''bitterness'', 0.3), (''resilience'', 0.3)],
             stabilityFactors = [''core_memory'', ''repeated_interaction'']\<rparr>"
  by (simp add: elenaKernel_def kernel_defs Let_def)

theorem applyMutation_preserves_unit_sum_witness:
  "unitDistribution [(''sadness'', Num 0.2), (''anger'', Num 0.2), (''fear'', Num 0.1),
                     (''disgust'', Num 0.1), (''joy'', Num 0.2), (''surprise'', Num 0.2)]
   \<and> (\<exists>vs'. toneVariations
               (applyMutations elenaKernel ''elena''
                  [tiredFold, tiredFold, tiredFold, tiredFold, tiredFold]) ''elena'' = Some vs'
            \<and> numSum (map snd vs') = Num 1)"
proof -
  let ?vs = "[(''sadness'', Num 0.2), (''anger'', Num 0.2), (''fear'', Num 0.1),
              (''disgust'', Num 0.1), (''joy'', Num 0.2), (''surprise'', Num 0.2)]"
  have u: "unitDistribution ?vs"
    by (simp add: unitDistribution_def numSum_def)
  have i: "\<forall>fld \<in> set [tiredFold, tiredFold, tiredFold, tiredFold, tiredFold].
             0 \<le> driftRate \<lparr>driftRate = 0.1,
                     driftDirections = [(''melancholy'', 0.4), (''bitterness'', 0.3),
                                        (''resilience'', 0.3)],
                     stabilityFactors = [''core_memory'', ''repeated_interaction'']\<rparr>
                 * intensity (emotionalState fld)"
    by (simp add: tiredFold_def)
  have d: "\<forall>fld \<in> set [tiredFold, tiredFold, tiredFold, tiredFold, tiredFold].
             dominant (emotionalState fld) \<in> set (map fst ?vs)
             \<or> dominant (emotionalState fld) \<notin> set objectPrototypeKeys"
    by (simp add: tiredFold_def)
  have n: "5 \<le> length [tiredFold, tiredFold, tiredFold, tiredFold, tiredFold]"
    by simp
  from applyMutation_preserves_unit_sum [OF elena_character elena_variations u elena_rules i d n]
  have "\<exists>vs'. toneVariations
               (applyMutations elenaKernel ''elena''
                  (take 5 [tiredFold, tiredFold, tiredFold, tiredFold, tiredFold])) ''elena'' = Some vs'
            \<and> unitDistribution vs' \<and> numSum (map snd vs') = Num 1" .
  then have "\<exists>vs'. toneVariations
               (applyMutations elenaKernel ''elena''
                  [tiredFold, tiredFold, tiredFold, tiredFold, tiredFold]) ''elena'' = Some vs'
            \<and> numSum (map snd vs') = Num 1"
    by auto
  with u show ?thesis by blast
qed

lemma mara_character:
  "getCharacter maraKernel ''mara''
     = Some \<lparr>ch_id = ''mara'', ch_name = ''Mara'', toneProfile = 1, mutationSchema = 2,
             memoryAnchor = ''anchor-1'', collapseThreshold = 0.7\<rparr>"
  by (simp add: maraKernel_def kernel_defs Let_def)

lemma mara_variations:
  "toneVariations maraKernel ''mara'' = Some [(''sadness'', Num 1), (''joy'', Num 0)]"
  by (simp add: maraKernel_def kernel_defs Let_def)

lemma nora_character:
  "getCharacter noraKernel ''nora''
     = Some \<lparr>ch_id = ''nora'', ch_name = ''Nora'', toneProfile = 1, mutationSchema = 2,
             memoryAnchor = ''anchor-1'', collapseThreshold = 0.7\<rparr>"
  by (simp add: noraKernel_def kernel_defs Let_def)

lemma nora_variations:
  "toneVariations noraKernel ''nora'' = Some [(''sadness'', Num 1.5), (''joy'', Num (- 0.5))]"
  by (simp add: noraKernel_def kernel_defs Let_def)

lemmas mutate_defs =
  mutateVariations_def hasProperty_def getOperand_def setProperty_def numSum_def
  objectPrototypeKeys_def

text \<open>
  C8, as stated, fails. Mara's weights sum to 1 and her drift rate is -0.1: a reaction
  dominated by sadness, of intensity 0.7, lowers that weight to 0.93, and the other
  weights, which sum to 0, are not rescaled, so the weights sum to 0.93. Nora's weights
  1.5 and -0.5 sum to 1 and her drift rate is 0.1: the same reaction caps sadness at 1 and
  leaves the other weight, so the weights sum to 0.5.
\<close>

theorem unit_sum_lost_outside_data_model:
  "toneVariations maraKernel ''mara'' = Some [(''sadness'', Num 1), (''joy'', Num 0)]
   \<and> numSum [Num 1, Num 0] = Num 1
   \<and> toneVariations (applyMutation maraKernel ''mara'' tiredFold) ''mara''
       = Some [(''sadness'', Num (93 / 100)), (''joy'', Num 0)]
   \<and> numSum [Num (93 / 100), Num 0] = Num (93 / 100)
   \<and> toneVariations noraKernel ''nora'' = Some [(''sadness'', Num (3 / 2)), (''joy'', Num (- 1 / 2))]
   \<and> numSum [Num (3 / 2), Num (- 1 / 2)] = Num 1
   \<and> toneVariations (applyMutation noraKernel ''nora'' tiredFold) ''nora''
       = Some [(''sadness'', Num 1), (''joy'', Num (- 1 / 2))]
   \<and> numSum [Num 1, Num (- 1 / 2)] = Num (1 / 2)"
proof -
  have m: "mutationRules maraKernel ''mara''
             = Some \<lparr>driftRate = - 0.1,
                     driftDirections = [(''openness'', 0.2), (''conscientiousness'', 0.2),
                                        (''extraversion'', 0.2), (''agreeableness'', 0.2),
                                        (''neuroticism'', 0.2)],
                     stabilityFactors = [''core_memory'', ''repeated_interaction'']\<rparr>"
    by (simp add: maraKernel_def kernel_defs Let_def)
  have n: "mutationRules noraKernel ''nora''
             = Some \<lparr>driftRate = 0.1,
                     driftDirections = [(''openness'', 0.2), (''conscientiousness'', 0.2),
                                        (''extraversion'', 0.2), (''agreeableness'', 0.2),
                                        (''neuroticism'', 0.2)],
                     stabilityFactors = [''core_memory'', ''repeated_interaction'']\<rparr>"
    by (simp add: noraKernel_def kernel_defs Let_def)
  have 1: "toneVariations (applyMutation maraKernel ''mara'' tiredFold) ''mara''
       = Some [(''sadness'', Num (93 / 100)), (''joy'', Num 0)]"
    using applyMutation_toneVariations [OF mara_character mara_variations m, of tiredFold]
    by (simp add: mutate_defs tiredFold_def Let_def)
  have 2: "toneVariations (applyMutation noraKernel ''nora'' tiredFold) ''nora''
       = Some [(''sadness'', Num 1), (''joy'', Num (- 1 / 2))]"
    using applyMutation_toneVariations [OF nora_character nora_variations n, of tiredFold]
    by (simp add: mutate_defs tiredFold_def Let_def)
  from 1 2 mara_variations nora_variations show ?thesis
    by (simp add: numSum_def)
qed

text \<open>A reaction dominated by \<open>constructor\<close>, which \<open>in\<close> finds in every table: each of
  Elena's weights becomes \<open>NaN\<close>, and the table gains the key.\<close>

lemma inherited_name_gives_NaN:
  "toneVariations (applyMutation elenaKernel ''elena'' constructorFold) ''elena''
     = Some [(''sadness'', NaN), (''anger'', NaN), (''fear'', NaN), (''disgust'', NaN),
             (''joy'', NaN), (''surprise'', NaN), (''constructor'', NaN)]"
  using applyMutation_toneVariations [OF elena_character elena_variations elena_rules, of constructorFold]
  by (simp add: mutate_defs constructorFold_def Let_def)

section \<open>Echo Matcher: expiry\<close>

lemma keeps_refl: "keeps m m"
  by (simp add: keeps_def)

lemma keeps_trans: "keeps m m' \<Longrightarrow> keeps m' m'' \<Longrightarrow> keeps m m''"
  unfolding keeps_def by (metis (no_types, lifting))

lemma update_existing_keys:
  "map_of al k = Some v \<Longrightarrow> map fst (AList.update k v' al) = map fst al"
  by (simp add: update_keys) (metis domI dom_map_of_conv_image_fst set_map)

lemma keeps_update:
  assumes "map_of (activePremonitions m) k = Some st"
    and "premonition st' = premonition st" and "expiresAtTurn st' = expiresAtTurn st"
  shows "keeps m (m\<lparr>activePremonitions := AList.update k st' (activePremonitions m)\<rparr>)"
  using assms by (auto simp: keeps_def update_existing_keys update_conv')

lemma keeps_store: "keeps m (m\<lparr>memoryGraph := g\<rparr>)"
  by (simp add: keeps_def)

lemma bindPremonition_cases:
  "bindPremonition now m p fracture = (m', evs, err) \<Longrightarrow>
     (\<exists>g. m' = m\<lparr>memoryGraph := g\<rparr>)
     \<and> ((err \<noteq> None \<and> evs = [])
        \<or> (err = None \<and> (\<exists>b. evs = [BindingEvent b] \<and> premonitionId b = fo_id p)))"
  by (auto simp: bindPremonition_def Let_def split: prod.splits sum.splits)


lemma snapshotOf_tail:
  assumes "snapshotOf ((k, state) # rest) m" and "keeps m m'"
    and "\<forall>k'. k' \<noteq> k \<longrightarrow> map_of (activePremonitions m') k' = map_of (activePremonitions m) k'"
  shows "snapshotOf rest m'"
proof -
  have d: "distinct (map fst rest)" and nk: "k \<notin> fst ` set rest"
    and l: "\<forall>kv \<in> set rest. map_of (activePremonitions m) (fst kv) = Some (snd kv)"
    using assms(1) by (auto simp: snapshotOf_def)
  have "map_of (activePremonitions m') (fst kv) = Some (snd kv)" if "kv \<in> set rest" for kv
  proof -
    from that nk have "fst kv \<noteq> k" by auto
    with assms(3) l that show ?thesis by simp
  qed
  with d show ?thesis by (simp add: snapshotOf_def)
qed

lemma fromSnapshot_Cons: "fromSnapshot turn rest ev \<Longrightarrow> fromSnapshot turn (kv # rest) ev"
  by (auto simp: fromSnapshot_def)

lemma attemptBindings_inv:
  assumes "snapshotOf entries m"
    and "attemptBindings now fracture entries m evs = (m', evs', err)"
  shows "keeps m m' \<and> (\<forall>ev \<in> set evs'. ev \<in> set evs \<or> fromSnapshot (turnCounter m) entries ev)"
  using assms
proof (induction entries arbitrary: m evs)
  case Nil
  then show ?case by (simp add: keeps_refl)
next
  case (Cons kv rest)
  obtain k state where kv: "kv = (k, state)" by (cases kv)
  have look: "map_of (activePremonitions m) k = Some state"
    using Cons.prems(1) by (simp add: snapshotOf_def kv)
  show ?case
  proof (cases "isBound state \<or> turnCounter m > expiresAtTurn state")
    case True
    have "snapshotOf rest m"
      using Cons.prems(1) unfolding kv by (rule snapshotOf_tail) (simp_all add: keeps_refl)
    moreover have "attemptBindings now fracture rest m evs = (m', evs', err)"
      using Cons.prems(2) True by (simp add: kv)
    ultimately have "keeps m m' \<and> (\<forall>ev \<in> set evs'. ev \<in> set evs \<or> fromSnapshot (turnCounter m) rest ev)"
      by (rule Cons.IH)
    then show ?thesis by (auto intro: fromSnapshot_Cons)
  next
    case False
    define state1 where "state1 = state\<lparr>bindingAttempts := bindingAttempts state + 1\<rparr>"
    define m1 where "m1 = m\<lparr>activePremonitions := AList.update k state1 (activePremonitions m)\<rparr>"
    have k1: "keeps m m1"
      unfolding m1_def using look by (rule keeps_update) (simp_all add: state1_def)
    have s1: "snapshotOf rest m1"
      using Cons.prems(1) k1 unfolding kv
      by (rule snapshotOf_tail) (simp add: m1_def update_conv')
    have t1: "turnCounter m1 = turnCounter m" by (simp add: m1_def)
    have look1: "map_of (activePremonitions m1) k = Some state1"
      by (simp add: m1_def update_conv')
    show ?thesis
    proof (cases "reaches (calculateMatchScore (premonition state1) fracture)
                    (getBindingThreshold (turnCounter m1) state1)")
      case noreach: False
      have "attemptBindings now fracture rest m1 evs = (m', evs', err)"
        using Cons.prems(2) False noreach by (simp add: kv Let_def state1_def m1_def)
      with s1 have "keeps m1 m' \<and> (\<forall>ev \<in> set evs'. ev \<in> set evs \<or> fromSnapshot (turnCounter m1) rest ev)"
        by (rule Cons.IH)
      with k1 show ?thesis by (auto intro: fromSnapshot_Cons keeps_trans simp: t1)
    next
      case reach: True
      obtain m2 evs2 err2 where b: "bindPremonition now m1 (premonition state1) fracture = (m2, evs2, err2)"
        by (cases "bindPremonition now m1 (premonition state1) fracture") auto
      from bindPremonition_cases [OF b] obtain g where m2: "m2 = m1\<lparr>memoryGraph := g\<rparr>"
        and ev2: "(err2 \<noteq> None \<and> evs2 = [])
           \<or> (err2 = None \<and> (\<exists>b. evs2 = [BindingEvent b] \<and> premonitionId b = fo_id (premonition state1)))"
        by blast
      have k2: "keeps m m2"
        using k1 unfolding m2 by (rule keeps_trans) (rule keeps_store)
      show ?thesis
      proof (cases err2)
        case (Some e)
        then have "(m', evs', err) = (m2, evs @ evs2, Some e)"
          using Cons.prems(2) False reach b by (simp add: kv Let_def state1_def m1_def)
        with ev2 Some k2 show ?thesis by auto
      next
        case None
        define m3 where "m3 = m2\<lparr>activePremonitions :=
                  AList.update k (state1\<lparr>isBound := True\<rparr>) (activePremonitions m2)\<rparr>"
        from ev2 None obtain bd where bd: "evs2 = [BindingEvent bd]"
          "premonitionId bd = fo_id (premonition state1)" by auto
        have look2: "map_of (activePremonitions m2) k = Some state1"
          using look1 by (simp add: m2)
        have k23: "keeps m2 m3"
          unfolding m3_def using look2 by (rule keeps_update) simp_all
        have k3: "keeps m m3" using k2 k23 by (rule keeps_trans)
        have s3: "snapshotOf rest m3"
          using Cons.prems(1) k3 unfolding kv
          by (rule snapshotOf_tail) (simp add: m3_def m2 m1_def update_conv')
        have t3: "turnCounter m3 = turnCounter m" by (simp add: m3_def m2 m1_def)
        have "attemptBindings now fracture rest m3 (evs @ evs2) = (m', evs', err)"
          using Cons.prems(2) False reach b None
          by (simp add: kv Let_def state1_def m1_def m3_def)
        with s3 have ih: "keeps m3 m'
            \<and> (\<forall>ev \<in> set evs'. ev \<in> set (evs @ evs2) \<or> fromSnapshot (turnCounter m3) rest ev)"
          by (rule Cons.IH)
        have here: "fromSnapshot (turnCounter m) (kv # rest) (BindingEvent bd)"
          using False bd(2) by (auto simp: fromSnapshot_def kv state1_def)
        from ih k3 here show ?thesis
          by (auto intro: fromSnapshot_Cons keeps_trans simp: t3 bd(1))
      qed
    qed
  qed
qed

lemma foldl_delete_keys:
  "foldl (\<lambda>al kv. AList.delete (fst kv) al) al xs = filter (\<lambda>kv. fst kv \<notin> fst ` set xs) al"
proof (induction xs arbitrary: al)
  case Nil
  then show ?case by simp
next
  case (Cons x xs)
  have "AList.delete (fst x) al = filter (\<lambda>kv. fst kv \<noteq> fst x) al"
    by (induction al) auto
  with Cons show ?case by (auto intro: filter_cong)
qed

lemma distinct_key_unique:
  "distinct (map fst al) \<Longrightarrow> (k, v) \<in> set al \<Longrightarrow> (k, v') \<in> set al \<Longrightarrow> v = v'"
  by (meson eq_key_imp_eq_value)

lemma cleanup_eq:
  assumes "distinct (map fst (activePremonitions m))"
  shows "cleanupExpiredPremonitions m =
           (m\<lparr>activePremonitions :=
                filter (\<lambda>kv. \<not> turnCounter m > expiresAtTurn (snd kv)) (activePremonitions m)\<rparr>,
            map (\<lambda>kv. PremonitionExpired (fst kv))
              (filter (\<lambda>kv. turnCounter m > expiresAtTurn (snd kv)) (activePremonitions m)))"
proof -
  let ?al = "activePremonitions m"
  let ?P = "\<lambda>kv. turnCounter m > expiresAtTurn (snd kv)"
  have "fst kv \<notin> fst ` set (filter ?P ?al) \<longleftrightarrow> \<not> ?P kv" if "kv \<in> set ?al" for kv
  proof
    assume "fst kv \<notin> fst ` set (filter ?P ?al)"
    with that show "\<not> ?P kv" by force
  next
    assume n: "\<not> ?P kv"
    show "fst kv \<notin> fst ` set (filter ?P ?al)"
    proof
      assume "fst kv \<in> fst ` set (filter ?P ?al)"
      then obtain kv' where kv': "kv' \<in> set ?al" "?P kv'" "fst kv' = fst kv" by auto
      from that kv'(1,3) have "snd kv' = snd kv"
        using distinct_key_unique [OF assms, of "fst kv" "snd kv" "snd kv'"]
        by (metis prod.collapse)
      with kv'(2) n show False by simp
    qed
  qed
  then have "filter (\<lambda>kv. fst kv \<notin> fst ` set (filter ?P ?al)) ?al = filter (\<lambda>kv. \<not> ?P kv) ?al"
    by (intro filter_cong) auto
  then show ?thesis
    by (simp add: cleanupExpiredPremonitions_def Let_def foldl_delete_keys)
qed

lemma distinct_map_insort:
  "distinct (map g (insort_key f x xs)) = (g x \<notin> g ` set xs \<and> distinct (map g xs))"
  by (induction xs) (auto simp: set_insort_key)

lemma distinct_map_sort_key: "distinct (map g (sort_key f xs)) = distinct (map g xs)"
  by (induction xs) (simp_all add: distinct_map_insort)

lemma fromSnapshot_set: "set xs = set ys \<Longrightarrow> fromSnapshot t xs ev = fromSnapshot t ys ev"
  by (simp add: fromSnapshot_def)

lemma snapshotOf_sorted:
  assumes "distinct (map fst (activePremonitions m))"
  shows "snapshotOf (sort_key f (activePremonitions m)) m"
  using assms by (auto simp: snapshotOf_def distinct_map_sort_key)

text \<open>The shape of a \<open>processFracture\<close> call: the loop, then the sweep unless the loop raised.\<close>

lemma processFracture_shape:
  assumes d: "distinct (map fst (activePremonitions m))"
    and p: "pm_processFracture now m fracture = (m', evs, err)"
  shows "\<exists>m2 evs2. keeps (m\<lparr>turnCounter := turnCounter m + 1\<rparr>) m2
           \<and> (\<forall>ev \<in> set evs2. fromSnapshot (turnCounter m + 1) (activePremonitions m) ev)
           \<and> ((err \<noteq> None \<and> m' = m2 \<and> evs = evs2)
              \<or> (err = None
                  \<and> m' = m2\<lparr>activePremonitions :=
                            filter (\<lambda>kv. \<not> turnCounter m2 > expiresAtTurn (snd kv))
                              (activePremonitions m2)\<rparr>
                  \<and> evs = evs2 @ map (\<lambda>kv. PremonitionExpired (fst kv))
                             (filter (\<lambda>kv. turnCounter m2 > expiresAtTurn (snd kv))
                                (activePremonitions m2))))"
proof -
  let ?m1 = "m\<lparr>turnCounter := turnCounter m + 1\<rparr>"
  let ?entries = "sort_key (\<lambda>kv. - calculateBindingStrength (bindingCriteria (premonition (snd kv))))
              (activePremonitions ?m1)"
  obtain m2 evs2 err2 where a: "attemptBindings now fracture ?entries ?m1 [] = (m2, evs2, err2)"
    by (cases "attemptBindings now fracture ?entries ?m1 []") auto
  have "snapshotOf ?entries ?m1"
    using d by (intro snapshotOf_sorted) simp
  from attemptBindings_inv [OF this a]
  have k: "keeps ?m1 m2" and e: "\<forall>ev \<in> set evs2. fromSnapshot (turnCounter ?m1) ?entries ev"
    by auto
  have "set ?entries = set (activePremonitions m)" by simp
  from fromSnapshot_set [OF this] e
  have e': "\<forall>ev \<in> set evs2. fromSnapshot (turnCounter m + 1) (activePremonitions m) ev"
    by simp
  have d2: "distinct (map fst (activePremonitions m2))"
    using k d by (simp add: keeps_def)
  show ?thesis
  proof (cases err2)
    case (Some x)
    with p a have "m' = m2" "evs = evs2" "err = Some x"
      by (simp_all add: pm_processFracture_def Let_def)
    with k e' show ?thesis by blast
  next
    case None
    with p a have "(m', evs, err) =
        (fst (cleanupExpiredPremonitions m2), evs2 @ snd (cleanupExpiredPremonitions m2), None)"
      by (simp add: pm_processFracture_def Let_def split: prod.splits)
    then have "err = None" "m' = fst (cleanupExpiredPremonitions m2)"
      "evs = evs2 @ snd (cleanupExpiredPremonitions m2)"
      by simp_all
    with k e' show ?thesis
      unfolding cleanup_eq [OF d2] fst_conv snd_conv by blast
  qed
qed

lemma fromSnapshot_not_expired: "fromSnapshot t al ev \<Longrightarrow> ev \<noteq> PremonitionExpired k"
  by (auto simp: fromSnapshot_def)

lemma count_expired_filter:
  assumes "distinct (map fst al)" and "map_of al pid = Some st"
  shows "count_list (map (\<lambda>kv. PremonitionExpired (fst kv)) (filter P al)) (PremonitionExpired pid)
           = (if P (pid, st) then 1 else 0)"
  using assms
proof (induction al)
  case Nil
  then show ?case by simp
next
  case (Cons kv al)
  show ?case
  proof (cases "fst kv = pid")
    case True
    with Cons.prems have kv: "kv = (pid, st)" and "pid \<notin> fst ` set al"
      by (cases kv; auto)+
    then have "PremonitionExpired pid \<notin> set (map (\<lambda>kv. PremonitionExpired (fst kv)) (filter P al))"
      by auto
    then have "count_list (map (\<lambda>kv. PremonitionExpired (fst kv)) (filter P al))
                 (PremonitionExpired pid) = 0"
      by (rule count_notin)
    then show ?thesis by (simp add: kv)
  next
    case False
    with Cons show ?thesis by (cases kv) auto
  qed
qed

lemma filter_lookup:
  assumes "distinct (map fst al)" and "map_of al pid = Some st"
  shows "(P (pid, st) \<longrightarrow> map_of (filter P al) pid = Some st)
       \<and> (\<not> P (pid, st) \<longrightarrow> pid \<notin> set (map fst (filter P al)))"
proof -
  have in_al: "(pid, st) \<in> set al" using assms(2) by (rule map_of_SomeD)
  have d: "distinct (map fst (filter P al))" using assms(1) by (rule distinct_map_filter)
  have "map_of (filter P al) pid = Some st" if "P (pid, st)"
    using d in_al that by (intro map_of_is_SomeI) auto
  moreover have "pid \<notin> set (map fst (filter P al))" if n: "\<not> P (pid, st)"
  proof
    assume "pid \<in> set (map fst (filter P al))"
    then obtain v where v: "(pid, v) \<in> set al" "P (pid, v)" by auto
    from distinct_key_unique [OF assms(1) v(1) in_al] v(2) n show False by simp
  qed
  ultimately show ?thesis by blast
qed

lemma keeps_matcherOk:
  assumes ok: "matcherOk m" and k: "keeps m m2"
  shows "matcherOk m2"
proof -
  have d: "distinct (map fst (activePremonitions m))"
    and ids: "\<forall>kv \<in> set (activePremonitions m). fo_id (premonition (snd kv)) = fst kv"
    using ok by (auto simp: matcherOk_def list_all_iff)
  have d2: "distinct (map fst (activePremonitions m2))"
    using k d by (simp add: keeps_def)
  have "fo_id (premonition (snd kv)) = fst kv" if "kv \<in> set (activePremonitions m2)" for kv
  proof -
    from k have keq: "map fst (activePremonitions m2) = map fst (activePremonitions m)"
      by (simp add: keeps_def)
    from that have "fst kv \<in> set (map fst (activePremonitions m2))" by auto
    then have "fst kv \<in> set (map fst (activePremonitions m))" unfolding keq .
    then obtain st where "(fst kv, st) \<in> set (activePremonitions m)" by auto
    with d have st: "map_of (activePremonitions m) (fst kv) = Some st" by simp
    with ids have i: "fo_id (premonition st) = fst kv"
      using \<open>(fst kv, st) \<in> set (activePremonitions m)\<close> by force
    from k st obtain st' where st': "map_of (activePremonitions m2) (fst kv) = Some st'"
      "premonition st' = premonition st" by (auto simp: keeps_def)
    from that d2 have "map_of (activePremonitions m2) (fst kv) = Some (snd kv)"
      by (intro map_of_is_SomeI) auto
    with st' i show ?thesis by simp
  qed
  with d2 show ?thesis by (simp add: matcherOk_def list_all_iff)
qed

lemma matcherOk_filter:
  "matcherOk m \<Longrightarrow> matcherOk (m\<lparr>activePremonitions := filter P (activePremonitions m)\<rparr>)"
  by (auto simp: matcherOk_def list_all_iff distinct_map_filter)

text \<open>What one \<open>processFracture\<close> call does to the table and which events it emits.\<close>

lemma processFracture_step:
  assumes ok: "matcherOk m"
    and p: "pm_processFracture now m fracture = (m', evs, err)"
  shows "turnCounter m' = turnCounter m + 1"
    and "matcherOk m'"
    and "list_ex (isBindingOf pid) evs \<Longrightarrow>
           \<exists>st. map_of (activePremonitions m) pid = Some st \<and> turnCounter m + 1 \<le> expiresAtTurn st"
    and "pid \<notin> set (map fst (activePremonitions m)) \<Longrightarrow>
           pid \<notin> set (map fst (activePremonitions m')) \<and> PremonitionExpired pid \<notin> set evs"
    and "map_of (activePremonitions m) pid = Some st \<Longrightarrow>
           err = None \<Longrightarrow> turnCounter m + 1 > expiresAtTurn st \<Longrightarrow>
           count_list evs (PremonitionExpired pid) = 1 \<and> pid \<notin> set (map fst (activePremonitions m'))"
    and "map_of (activePremonitions m) pid = Some st \<Longrightarrow>
           err \<noteq> None \<or> turnCounter m + 1 \<le> expiresAtTurn st \<Longrightarrow>
           PremonitionExpired pid \<notin> set evs
           \<and> (\<exists>st'. map_of (activePremonitions m') pid = Some st'
                  \<and> expiresAtTurn st' = expiresAtTurn st)"
proof -
  let ?m1 = "m\<lparr>turnCounter := turnCounter m + 1\<rparr>"
  have d: "distinct (map fst (activePremonitions m))"
    and ids: "\<forall>kv \<in> set (activePremonitions m). fo_id (premonition (snd kv)) = fst kv"
    using ok by (auto simp: matcherOk_def list_all_iff)
  from processFracture_shape [OF d p] obtain m2 evs2 where
    k: "keeps ?m1 m2"
    and e2: "\<forall>ev \<in> set evs2. fromSnapshot (turnCounter m + 1) (activePremonitions m) ev"
    and sh: "(err \<noteq> None \<and> m' = m2 \<and> evs = evs2)
              \<or> (err = None
                  \<and> m' = m2\<lparr>activePremonitions :=
                            filter (\<lambda>kv. \<not> turnCounter m2 > expiresAtTurn (snd kv))
                              (activePremonitions m2)\<rparr>
                  \<and> evs = evs2 @ map (\<lambda>kv. PremonitionExpired (fst kv))
                             (filter (\<lambda>kv. turnCounter m2 > expiresAtTurn (snd kv))
                                (activePremonitions m2)))"
    by blast
  let ?P = "\<lambda>kv. turnCounter m2 > expiresAtTurn (snd kv)"
  have t2: "turnCounter m2 = turnCounter m + 1"
    and keys2: "map fst (activePremonitions m2) = map fst (activePremonitions m)"
    using k by (simp_all add: keeps_def)
  have ok1: "matcherOk ?m1" using ok by (simp add: matcherOk_def)
  have ok2: "matcherOk m2" using ok1 k by (rule keeps_matcherOk)
  have d2: "distinct (map fst (activePremonitions m2))"
    using ok2 by (simp add: matcherOk_def)
  have no_exp2: "PremonitionExpired q \<notin> set evs2" for q
    using e2 fromSnapshot_not_expired by blast
  show "turnCounter m' = turnCounter m + 1"
    using sh t2 by auto
  show "matcherOk m'"
    using sh ok2 matcherOk_filter [OF ok2] by auto
  show "\<exists>st. map_of (activePremonitions m) pid = Some st \<and> turnCounter m + 1 \<le> expiresAtTurn st"
    if "list_ex (isBindingOf pid) evs"
  proof -
    from that obtain ev where ev: "ev \<in> set evs" "isBindingOf pid ev"
      by (auto simp: list_ex_iff)
    from ev(2) obtain b where b: "ev = BindingEvent b" "premonitionId b = pid"
      by (cases ev) auto
    with ev(1) sh have "ev \<in> set evs2" by auto
    with e2 have "fromSnapshot (turnCounter m + 1) (activePremonitions m) ev" by blast
    with b obtain kv where kv: "kv \<in> set (activePremonitions m)"
      "pid = fo_id (premonition (snd kv))" "turnCounter m + 1 \<le> expiresAtTurn (snd kv)"
      by (auto simp: fromSnapshot_def)
    with ids have "fst kv = pid" by auto
    with kv(1) d have "map_of (activePremonitions m) pid = Some (snd kv)"
      by (intro map_of_is_SomeI) auto
    with kv(3) show ?thesis by blast
  qed
  show "pid \<notin> set (map fst (activePremonitions m')) \<and> PremonitionExpired pid \<notin> set evs"
    if n: "pid \<notin> set (map fst (activePremonitions m))"
  proof -
    from n keys2 have n2: "pid \<notin> set (map fst (activePremonitions m2))" by simp
    then have "pid \<notin> set (map fst (filter Q (activePremonitions m2)))" for Q by auto
    moreover have "PremonitionExpired pid
        \<notin> set (map (\<lambda>kv. PremonitionExpired (fst kv)) (filter ?P (activePremonitions m2)))"
      using n2 by auto
    ultimately show ?thesis using sh n2 no_exp2 [of pid] by auto
  qed
  show "count_list evs (PremonitionExpired pid) = 1 \<and> pid \<notin> set (map fst (activePremonitions m'))"
    if l: "map_of (activePremonitions m) pid = Some st"
      and en: "err = None" and gt: "turnCounter m + 1 > expiresAtTurn st"
  proof -
    from k l obtain st2 where st2: "map_of (activePremonitions m2) pid = Some st2"
      "expiresAtTurn st2 = expiresAtTurn st" by (auto simp: keeps_def)
    have P: "?P (pid, st2)" using gt st2(2) t2 by simp
    have c2: "count_list evs2 (PremonitionExpired pid) = 0"
      using no_exp2 by (intro count_notin)
    have c3: "count_list (map (\<lambda>kv. PremonitionExpired (fst kv)) (filter ?P (activePremonitions m2)))
               (PremonitionExpired pid) = 1"
      using count_expired_filter [OF d2 st2(1), of ?P] P by simp
    have "pid \<notin> set (map fst (filter (\<lambda>kv. \<not> ?P kv) (activePremonitions m2)))"
      using filter_lookup [OF d2 st2(1), of "\<lambda>kv. \<not> ?P kv"] P by simp
    with sh en c2 c3 show ?thesis by auto
  qed
  show "PremonitionExpired pid \<notin> set evs
           \<and> (\<exists>st'. map_of (activePremonitions m') pid = Some st'
                  \<and> expiresAtTurn st' = expiresAtTurn st)"
    if l: "map_of (activePremonitions m) pid = Some st"
      and c: "err \<noteq> None \<or> turnCounter m + 1 \<le> expiresAtTurn st"
  proof -
    from k l obtain st2 where st2: "map_of (activePremonitions m2) pid = Some st2"
      "expiresAtTurn st2 = expiresAtTurn st" by (auto simp: keeps_def)
    show ?thesis
    proof (cases "err = None")
      case False
      with sh st2 no_exp2 [of pid] show ?thesis by auto
    next
      case True
      with c have le: "turnCounter m + 1 \<le> expiresAtTurn st" by simp
      then have nP: "\<not> ?P (pid, st2)" using st2(2) t2 by simp
      have "count_list (map (\<lambda>kv. PremonitionExpired (fst kv)) (filter ?P (activePremonitions m2)))
               (PremonitionExpired pid) = 0"
        using count_expired_filter [OF d2 st2(1), of ?P] nP by simp
      then have x: "PremonitionExpired pid
          \<notin> set (map (\<lambda>kv. PremonitionExpired (fst kv)) (filter ?P (activePremonitions m2)))"
        unfolding count_list_0_iff .
      have "map_of (filter (\<lambda>kv. \<not> ?P kv) (activePremonitions m2)) pid = Some st2"
        using filter_lookup [OF d2 st2(1), of "\<lambda>kv. \<not> ?P kv"] nP by simp
      with sh True x no_exp2 [of pid] st2(2) show ?thesis by auto
    qed
  qed
qed

lemma matcherOk_newMatcher: "matcherOk (newMatcher st)"
  by (simp add: matcherOk_def newMatcher_def)

lemma matcherOk_addPremonition:
  assumes "matcherOk m"
  shows "matcherOk (pm_addPremonition m p)"
proof -
  let ?st = "\<lparr>premonition = p, createdAtTurn = turnCounter m,
            expiresAtTurn = turnCounter m + validityWindow p,
            bindingAttempts = 0, isBound = False\<rparr>"
  have "set (AList.update (fo_id p) ?st (activePremonitions m))
          \<subseteq> insert (fo_id p, ?st) (set (activePremonitions m))"
    by (rule set_alist_update_subset)
  then have "\<forall>kv \<in> set (AList.update (fo_id p) ?st (activePremonitions m)).
               fo_id (premonition (snd kv)) = fst kv"
    using assms by (auto simp: matcherOk_def list_all_iff)
  moreover have "distinct (map fst (AList.update (fo_id p) ?st (activePremonitions m)))"
    using assms by (simp add: matcherOk_def distinct_update)
  ultimately show ?thesis
    by (simp add: matcherOk_def list_all_iff pm_addPremonition_def)
qed

lemma matcherOk_store: "matcherOk m \<Longrightarrow> matcherOk (m\<lparr>memoryGraph := g\<rparr>)"
  by (simp add: matcherOk_def)

lemma matcherOk_runCalls: "matcherOk m \<Longrightarrow> matcherOk (fst (runCalls m calls))"
proof (induction calls arbitrary: m)
  case Nil
  then show ?case by simp
next
  case (Cons call calls)
  show ?case
  proof (cases call)
    case (Register q)
    with Cons show ?thesis by (simp add: matcherOk_addPremonition)
  next
    case (External f)
    with Cons show ?thesis by (simp add: matcherOk_store)
  next
    case (Process now fracture)
    obtain m' evs err where p: "pm_processFracture now m fracture = (m', evs, err)"
      by (cases "pm_processFracture now m fracture") auto
    from processFracture_step(2) [OF Cons.prems p] have "matcherOk m'" .
    then have "matcherOk (fst (runCalls m' calls))" by (rule Cons.IH)
    with p Process show ?thesis by (cases "runCalls m' calls") simp
  qed
qed

lemma addPremonition_lookup:
  "map_of (activePremonitions (pm_addPremonition m p)) (fo_id p)
     = Some \<lparr>premonition = p, createdAtTurn = turnCounter m,
             expiresAtTurn = turnCounter m + validityWindow p,
             bindingAttempts = 0, isBound = False\<rparr>"
  and addPremonition_turn: "turnCounter (pm_addPremonition m p) = turnCounter m"
  by (simp_all add: pm_addPremonition_def update_conv')

lemma addPremonition_other:
  assumes "fo_id q \<noteq> pid"
  shows "map_of (activePremonitions (pm_addPremonition m q)) pid = map_of (activePremonitions m) pid"
    and "pid \<in> set (map fst (activePremonitions (pm_addPremonition m q)))
           \<longleftrightarrow> pid \<in> set (map fst (activePremonitions m))"
  using assms by (auto simp: pm_addPremonition_def update_conv' update_keys)

text \<open>Once the echo is out of the table and is not registered again, no call mentions it.\<close>

lemma gone_stays_gone:
  assumes "matcherOk m" and "pid \<notin> set (map fst (activePremonitions m))"
    and "\<forall>q. Register q \<in> set calls \<longrightarrow> fo_id q \<noteq> pid"
  shows "\<forall>entry \<in> set (snd (runCalls m calls)).
           \<not> expiredIn pid entry \<and> \<not> activeAfter pid entry \<and> \<not> bindsIn pid entry"
  using assms
proof (induction calls arbitrary: m)
  case Nil
  then show ?case by simp
next
  case (Cons call calls)
  have rest: "\<forall>q. Register q \<in> set calls \<longrightarrow> fo_id q \<noteq> pid"
    using Cons.prems(3) by auto
  show ?case
  proof (cases call)
    case (Register q)
    with Cons.prems(3) have "fo_id q \<noteq> pid" by auto
    from addPremonition_other(2) [OF this, of m] Cons.prems(2)
    have "pid \<notin> set (map fst (activePremonitions (pm_addPremonition m q)))"
      by simp
    with Cons.IH [OF matcherOk_addPremonition [OF Cons.prems(1)] _ rest] Register
    show ?thesis by simp
  next
    case (External f)
    with Cons.IH [OF matcherOk_store [OF Cons.prems(1)] _ rest, of "f (memoryGraph m)"] Cons.prems(2)
    show ?thesis by simp
  next
    case (Process now fracture)
    obtain m' evs err where p: "pm_processFracture now m fracture = (m', evs, err)"
      by (cases "pm_processFracture now m fracture") auto
    note step = processFracture_step [OF Cons.prems(1) p]
    have ok': "matcherOk m'" by (rule step(2))
    have g: "pid \<notin> set (map fst (activePremonitions m'))" "PremonitionExpired pid \<notin> set evs"
      using step(4) [OF Cons.prems(2)] by simp_all
    have nb: "\<not> list_ex (isBindingOf pid) evs"
    proof
      assume "list_ex (isBindingOf pid) evs"
      from step(3) [OF this] obtain st where "map_of (activePremonitions m) pid = Some st"
        by blast
      then have "pid \<in> set (map fst (activePremonitions m))"
        by (metis map_of_SomeD fst_conv image_eqI set_map)
      with Cons.prems(2) show False by simp
    qed
    from Cons.IH [OF ok' g(1) rest]
    have "\<forall>entry \<in> set (snd (runCalls m' calls)).
            \<not> expiredIn pid entry \<and> \<not> activeAfter pid entry \<and> \<not> bindsIn pid entry" .
    with g nb p Process show ?thesis
      by (simp add: expiredIn_def activeAfter_def bindsIn_def split: prod.splits)
  qed
qed

lemma pending_expires_once:
  assumes "matcherOk m" and "map_of (activePremonitions m) pid = Some st"
    and "expiresAtTurn st = limit"
    and "\<forall>q. Register q \<in> set calls \<longrightarrow> fo_id q \<noteq> pid"
  shows "expiryDiscipline pid limit (snd (runCalls m calls))"
  using assms
proof (induction calls arbitrary: m st)
  case Nil
  then show ?case by (simp add: expiryDiscipline_def)
next
  case (Cons call calls)
  have rest: "\<forall>q. Register q \<in> set calls \<longrightarrow> fo_id q \<noteq> pid"
    using Cons.prems(4) by auto
  show ?case
  proof (cases call)
    case (Register q)
    with Cons.prems(4) have "fo_id q \<noteq> pid" by auto
    from addPremonition_other(1) [OF this, of m] Cons.prems(2)
    have "map_of (activePremonitions (pm_addPremonition m q)) pid = Some st"
      by simp
    from Cons.IH [OF matcherOk_addPremonition [OF Cons.prems(1)] this Cons.prems(3) rest] Register
    show ?thesis by simp
  next
    case (External f)
    have "map_of (activePremonitions (m\<lparr>memoryGraph := f (memoryGraph m)\<rparr>)) pid = Some st"
      using Cons.prems(2) by simp
    from Cons.IH [OF matcherOk_store [OF Cons.prems(1)] this Cons.prems(3) rest] External
    show ?thesis by simp
  next
    case (Process now fracture)
    obtain m' evs err where p: "pm_processFracture now m fracture = (m', evs, err)"
      by (cases "pm_processFracture now m fracture") auto
    note step = processFracture_step [OF Cons.prems(1) p]
    have ok': "matcherOk m'" by (rule step(2))
    define entry0 where "entry0 = \<lparr>cl_turn = turnCounter m', cl_events = evs, cl_raised = err,
                      cl_after = m'\<rparr>"
    define logs' where "logs' = snd (runCalls m' calls)"
    have logs: "snd (runCalls m (call # calls)) = entry0 # logs'"
      using p Process by (simp add: entry0_def logs'_def split: prod.splits)
    have t': "turnCounter m' = turnCounter m + 1" by (rule step(1))
    have b0: "bindsIn pid entry0 \<longrightarrow> cl_turn entry0 \<le> limit"
    proof
      assume "bindsIn pid entry0"
      then have "list_ex (isBindingOf pid) evs" by (simp add: bindsIn_def entry0_def)
      from step(3) [OF this] Cons.prems(2,3) show "cl_turn entry0 \<le> limit"
        by (auto simp: entry0_def t')
    qed
    show ?thesis
    proof (cases "completedPast limit entry0")
      case True
      then have en: "err = None" and gt: "turnCounter m + 1 > expiresAtTurn st"
        using Cons.prems(3) by (simp_all add: completedPast_def entry0_def t')
      from step(5) [OF Cons.prems(2) en gt]
      have c: "count_list evs (PremonitionExpired pid) = 1"
        and g: "pid \<notin> set (map fst (activePremonitions m'))" by simp_all
      have later: "\<forall>entry \<in> set logs'.
            \<not> expiredIn pid entry \<and> \<not> activeAfter pid entry \<and> \<not> bindsIn pid entry"
        unfolding logs'_def using ok' g rest by (rule gone_stays_gone)
      from True b0 c g later show ?thesis
        unfolding logs expiryDiscipline_def
        by (simp add: entry0_def activeAfter_def)
    next
      case False
      then have c: "err \<noteq> None \<or> turnCounter m + 1 \<le> expiresAtTurn st"
        using Cons.prems(3) by (auto simp: completedPast_def entry0_def t')
      from step(6) [OF Cons.prems(2) c] obtain st' where
        ne: "PremonitionExpired pid \<notin> set evs"
        and st': "map_of (activePremonitions m') pid = Some st'" "expiresAtTurn st' = expiresAtTurn st"
        by blast
      have a: "activeAfter pid entry0"
        using st'(1) by (simp add: activeAfter_def entry0_def) (metis map_of_SomeD fst_conv image_eqI)
      have "expiryDiscipline pid limit logs'"
        unfolding logs'_def using ok' st'(1) _ rest by (rule Cons.IH) (simp add: st'(2) Cons.prems(3))
      with False b0 ne a show ?thesis
        unfolding logs expiryDiscipline_def
        by (simp add: entry0_def expiredIn_def)
    qed
  qed
qed

lemma runCalls_turns:
  assumes "matcherOk m"
  shows "\<forall>i < length (snd (runCalls m calls)).
           cl_turn (snd (runCalls m calls) ! i) = turnCounter m + 1 + int i"
  using assms
proof (induction calls arbitrary: m)
  case Nil
  then show ?case by simp
next
  case (Cons call calls)
  show ?case
  proof (cases call)
    case (Register q)
    with Cons.IH [OF matcherOk_addPremonition [OF Cons.prems], of q]
    show ?thesis by (simp add: addPremonition_turn)
  next
    case (External f)
    with Cons.IH [OF matcherOk_store [OF Cons.prems], of "f (memoryGraph m)"]
    show ?thesis by simp
  next
    case (Process now fracture)
    obtain m' evs err where p: "pm_processFracture now m fracture = (m', evs, err)"
      by (cases "pm_processFracture now m fracture") auto
    note step = processFracture_step [OF Cons.prems p]
    have t': "turnCounter m' = turnCounter m + 1" by (rule step(1))
    define logs' where "logs' = snd (runCalls m' calls)"
    have logs: "snd (runCalls m (call # calls))
                  = \<lparr>cl_turn = turnCounter m', cl_events = evs, cl_raised = err, cl_after = m'\<rparr> # logs'"
      using p Process by (simp add: logs'_def split: prod.splits)
    have ih: "\<forall>i < length logs'. cl_turn (logs' ! i) = turnCounter m' + 1 + int i"
      unfolding logs'_def using step(2) by (rule Cons.IH)
    show ?thesis
      unfolding logs
    proof (intro allI impI)
      fix i
      assume "i < length (\<lparr>cl_turn = turnCounter m', cl_events = evs, cl_raised = err,
                           cl_after = m'\<rparr> # logs')"
      then show "cl_turn ((\<lparr>cl_turn = turnCounter m', cl_events = evs, cl_raised = err,
                           cl_after = m'\<rparr> # logs') ! i) = turnCounter m + 1 + int i"
        using ih t' by (cases i) auto
    qed
  qed
qed

text \<open>
  C5, amended. An echo \<open>p\<close> is registered in a matcher built by any earlier calls, at
  turn \<open>T\<close> with validity window \<open>W\<close>, and is not registered again under its id; any
  calls follow, with any changes to the shared store in between. Then the \<open>i\<close>-th
  following \<open>processFracture\<close> call runs at turn \<open>T + 1 + i\<close>; the echo binds only in
  calls at turns up to \<open>T + W\<close>; before the first call that runs to completion at a
  turn beyond \<open>T + W\<close> no call reports it expired and it stays in the active set; that
  call reports it expired exactly once and drops it; no later call reports it, binds it
  or finds it active.
\<close>

theorem echo_expires_once_at_first_completed_call:
  assumes "\<forall>q. Register q \<in> set calls \<longrightarrow> fo_id q \<noteq> fo_id p"
    and "m0 = fst (runCalls (newMatcher st0) earlier)"
    and "limit = turnCounter m0 + validityWindow p"
    and "logs = snd (runCalls (pm_addPremonition m0 p) calls)"
  shows "(\<forall>i < length logs. cl_turn (logs ! i) = turnCounter m0 + 1 + int i)
     \<and> (\<forall>entry \<in> set logs. bindsIn (fo_id p) entry \<longrightarrow> cl_turn entry \<le> limit)
     \<and> (\<forall>entry \<in> set (takeWhile (\<lambda>e. \<not> completedPast limit e) logs).
           \<not> expiredIn (fo_id p) entry \<and> activeAfter (fo_id p) entry)
     \<and> (case dropWhile (\<lambda>e. \<not> completedPast limit e) logs of
           [] \<Rightarrow> True
         | first # later \<Rightarrow>
             count_list (cl_events first) (PremonitionExpired (fo_id p)) = 1
             \<and> \<not> activeAfter (fo_id p) first
             \<and> (\<forall>entry \<in> set later.
                   \<not> expiredIn (fo_id p) entry \<and> \<not> activeAfter (fo_id p) entry
                   \<and> \<not> bindsIn (fo_id p) entry))"
proof -
  have ok0: "matcherOk m0"
    unfolding assms(2) by (intro matcherOk_runCalls matcherOk_newMatcher)
  have ok1: "matcherOk (pm_addPremonition m0 p)"
    using ok0 by (rule matcherOk_addPremonition)
  have "expiryDiscipline (fo_id p) limit logs"
    unfolding assms(4) using ok1 addPremonition_lookup [of m0 p] _ assms(1)
    by (rule pending_expires_once) (simp add: assms(3))
  moreover have "\<forall>i < length logs. cl_turn (logs ! i) = turnCounter m0 + 1 + int i"
    unfolding assms(4) using runCalls_turns [OF ok1, of calls] by (simp add: addPremonition_turn)
  ultimately show ?thesis
    unfolding expiryDiscipline_def by blast
qed


lemma hello_score: "calculateMatchScore echoB helloStimulus = 3 / 2"
  by (simp add: calculateMatchScore_def echoB_def helloStimulus_def plainFracture_def
      calculateContentSimilarity_def trim_def toLowerCase_def toLowerChar_def isSpace_def split_def)

lemma strengths:
  "calculateBindingStrength (bindingCriteria echoA) = 39 / 100"
  "calculateBindingStrength (bindingCriteria echoB) = 7 / 10"
  by (simp_all add: calculateBindingStrength_def echoA_def echoB_def)

lemma echo_fields:
  "fo_id echoA = ''A''" "fo_id echoB = ''B''" "validityWindow echoA = 0" "validityWindow echoB = 3"
  "fr_id helloStimulus = ''H''"
  by (simp_all add: echoA_def echoB_def helloStimulus_def plainFracture_def)

lemma unstoredLogs_eval:
  "map cl_turn unstoredLogs = [1, 2]
   \<and> map cl_raised unstoredLogs = [Some MissingEndpoint, None]
   \<and> map (expiredIn ''A'') unstoredLogs = [False, True]
   \<and> map (activeAfter ''A'') unstoredLogs = [True, False]
   \<and> map (bindsIn ''B'') unstoredLogs = [False, True]"
  by (simp add: unstoredLogs_def unstoredCalls_def pm_processFracture_def pm_addPremonition_def
      newMatcher_def strengths hello_score getBindingThreshold_def bindPremonition_def
      addEdge_def hasNode_def addPremonition_def addNode_def setNode_def setEdge_def
      newStore_def newGraph_def addFracture_def cleanupExpiredPremonitions_def
      expiredIn_def activeAfter_def bindsIn_def edgeId_def
      Let_def echo_fields)


text \<open>
  C5, as stated, fails. Echo \<open>A\<close> is registered at turn 0 with window 0. The first
  \<open>processFracture\<close> call runs at turn 1, beyond 0 + 0, but echo \<open>B\<close> binds in it to a
  stimulus that is not stored: the edge insertion raises, the call ends before the expiry
  sweep, \<open>A\<close> is not reported and stays active. The second call, at turn 2, reports it.
\<close>

theorem aborted_call_skips_expiry:
  "turnCounter (newMatcher newStore) + validityWindow echoA = 0
   \<and> map cl_turn unstoredLogs = [1, 2]
   \<and> map cl_raised unstoredLogs = [Some MissingEndpoint, None]
   \<and> map (expiredIn ''A'') unstoredLogs = [False, True]
   \<and> map (activeAfter ''A'') unstoredLogs = [True, False]"
  using unstoredLogs_eval by (simp add: newMatcher_def echo_fields)

theorem echo_expires_once_at_first_completed_call_witness:
  "\<exists>e1 e2. unstoredLogs = [e1, e2]
      \<and> \<not> completedPast 0 e1 \<and> completedPast 0 e2
      \<and> \<not> expiredIn ''A'' e1 \<and> activeAfter ''A'' e1
      \<and> count_list (cl_events e2) (PremonitionExpired ''A'') = 1
      \<and> \<not> activeAfter ''A'' e2"
proof -
  have h: "\<forall>q. Register q \<in> set unstoredCalls \<longrightarrow> fo_id q \<noteq> fo_id echoA"
    by (simp add: unstoredCalls_def echo_fields)
  have m0: "newMatcher newStore = fst (runCalls (newMatcher newStore) [])"
    by simp
  have l: "(0::int) = turnCounter (newMatcher newStore) + validityWindow echoA"
    by (simp add: newMatcher_def echo_fields)
  have logs: "unstoredLogs = snd (runCalls (pm_addPremonition (newMatcher newStore) echoA) unstoredCalls)"
    by (rule unstoredLogs_def)
  note t = echo_expires_once_at_first_completed_call [OF h m0 l logs]
  from unstoredLogs_eval have a: "map cl_turn unstoredLogs = [1, 2]"
    and b: "map cl_raised unstoredLogs = [Some MissingEndpoint, None]"
    by simp_all
  from a obtain e1 e2 where e: "unstoredLogs = [e1, e2]"
    by (auto simp: map_eq_Cons_conv)
  have c: "\<not> completedPast 0 e1" "completedPast 0 e2"
    using a b by (simp_all add: e completedPast_def)
  from t c have "\<not> expiredIn ''A'' e1 \<and> activeAfter ''A'' e1
         \<and> count_list (cl_events e2) (PremonitionExpired ''A'') = 1
         \<and> \<not> activeAfter ''A'' e2"
    by (simp add: e echo_fields)
  with e c show ?thesis by blast
qed

end
